theory Spec2Isabelle
  imports Main "HOL-Library.Sublist" "HOL-Library.AList"
begin

section \<open>Python strings\<close>

text \<open>
  A Python \<open>str\<close> is modelled as a \<open>string\<close> whose characters stand for the code points
  below 256. On that range \<open>str.isspace\<close> and the regular expression class \<open>\s\<close> agree
  (both use the interpreter's whitespace table), and \<open>\d\<close> is the ASCII digits.
\<close>

definition is_space :: "char \<Rightarrow> bool" where
  "is_space c \<longleftrightarrow> c \<in> set [CHR 0x09, CHR 0x0A, CHR 0x0B, CHR 0x0C, CHR 0x0D,
                          CHR 0x1C, CHR 0x1D, CHR 0x1E, CHR 0x1F, CHR 0x20, CHR 0x85, CHR 0xA0]"

definition is_digit :: "char \<Rightarrow> bool" where
  "is_digit c \<longleftrightarrow> c \<in> set ''0123456789''"

definition lstrip :: "string \<Rightarrow> string" where
  "lstrip s = dropWhile is_space s"

definition rstrip :: "string \<Rightarrow> string" where
  "rstrip s = rev (dropWhile is_space (rev s))"

text \<open>\<open>s.strip()\<close>\<close>

definition strip :: "string \<Rightarrow> string" where
  "strip s = rstrip (lstrip s)"

text \<open>\<open>s.split(c)\<close> for a one-character separator: the accumulator is the piece being read.\<close>

fun split_acc :: "char \<Rightarrow> string \<Rightarrow> string \<Rightarrow> string list" where
  "split_acc c cur [] = [cur]"
| "split_acc c cur (x # xs) =
     (if x = c then cur # split_acc c [] xs else split_acc c (cur @ [x]) xs)"

definition split_on :: "char \<Rightarrow> string \<Rightarrow> string list" where
  "split_on c s = split_acc c [] s"

text \<open>\<open>s.split(c, 1)\<close>: at most one split, at the first occurrence of the separator.\<close>

definition split_once :: "char \<Rightarrow> string \<Rightarrow> string list" where
  "split_once c s =
     (case dropWhile (\<lambda>x. x \<noteq> c) s of
        [] \<Rightarrow> [s]
      | _ # rest \<Rightarrow> [takeWhile (\<lambda>x. x \<noteq> c) s, rest])"

text \<open>\<open>sep.join(xs)\<close>\<close>

fun join :: "string \<Rightarrow> string list \<Rightarrow> string" where
  "join sep [] = []"
| "join sep [x] = x"
| "join sep (x # y # ys) = x @ sep @ join sep (y # ys)"

text \<open>\<open>needle in s\<close>\<close>

fun str_contains :: "string \<Rightarrow> string \<Rightarrow> bool" where
  "str_contains [] needle = (needle = [])"
| "str_contains (c # cs) needle = (prefix needle (c # cs) \<or> str_contains cs needle)"

text \<open>\<open>str(n)\<close> for an integer, as an f-string renders it.\<close>

definition digit_char :: "nat \<Rightarrow> char" where
  "digit_char d = ''0123456789'' ! d"

fun str_nat :: "nat \<Rightarrow> string" where
  "str_nat n = (if n < 10 then [digit_char n] else str_nat (n div 10) @ [digit_char (n mod 10)])"

definition str_int :: "int \<Rightarrow> string" where
  "str_int i = (if i < 0 then CHR ''-'' # str_nat (nat (- i)) else str_nat (nat i))"

section \<open>Python values and errors\<close>

datatype pyerr = IndexError

text \<open>
  A topic is a Python \<open>dict\<close>: an association list in insertion order, updated in place
  by \<open>AList.update\<close> (a new key goes to the end, as in Python). Its values are strings or
  lists of strings.
\<close>

datatype pyval = Str string | StrList "string list"

type_synonym pydict = "(string \<times> pyval) list"

text \<open>Truthiness of \<open>d.get(k)\<close>: a missing key gives \<open>None\<close>.\<close>

fun truthy :: "pyval option \<Rightarrow> bool" where
  "truthy None = False"
| "truthy (Some (Str s)) = (s \<noteq> [])"
| "truthy (Some (StrList l)) = (l \<noteq> [])"

section \<open>The topic parser (\<open>TopicIdeaAgent._parse_topic_ideas\<close>)\<close>

text \<open>
  \<open>re.match(r'^#{0,2}\s*\d+\.\s*(.+)$', line)\<close>, giving \<open>group(1)\<close>. The line comes from
  \<open>raw_output.split('\n')\<close>, so it holds no newline: \<open>.\<close> matches every character of it and
  \<open>$\<close> only its end. Hashes, whitespace and digits are disjoint classes, so the greedy
  choices of the first three quantifiers are forced; the last \<open>\s*\<close> gives back one
  character when nothing else is left for \<open>(.+)\<close>.
\<close>

definition title_match :: "string \<Rightarrow> string option" where
  "title_match line =
     (let hs = takeWhile (\<lambda>c. c = CHR ''#'') line;
          r1 = dropWhile (\<lambda>c. c = CHR ''#'') line;
          r2 = dropWhile is_space r1;
          ds = takeWhile is_digit r2;
          r3 = dropWhile is_digit r2
      in if length hs > 2 \<or> ds = [] then None
         else (case r3 of
                 [] \<Rightarrow> None
               | d # r4 \<Rightarrow>
                   if d \<noteq> CHR ''.'' then None
                   else (let g = dropWhile is_space r4
                         in if g \<noteq> [] then Some g
                            else if r4 \<noteq> [] then Some [last r4]
                            else None)))"

text \<open>The dictionary a title line opens.\<close>

definition new_topic :: "string \<Rightarrow> pydict" where
  "new_topic t = [(''title'', Str t), (''angle'', Str []), (''keywords'', StrList []),
                  (''rationale'', Str []), (''content_type'', Str [])]"

text \<open>\<open>if current_topic and current_topic.get('title'): topics.append(current_topic)\<close>\<close>

definition close_topic :: "pydict list \<Rightarrow> pydict option \<Rightarrow> pydict list" where
  "close_topic topics cur =
     (case cur of
        None \<Rightarrow> topics
      | Some d \<Rightarrow> if d \<noteq> [] \<and> truthy (map_of d ''title'') then topics @ [d] else topics)"

text \<open>\<open>line.split(':', 1)[1].strip()\<close>: the index raises when the line has no colon.\<close>

definition field_value :: "string \<Rightarrow> pyerr + string" where
  "field_value line =
     (case split_once CHR '':'' line of
        [_, v] \<Rightarrow> Inr (strip v)
      | _ \<Rightarrow> Inl IndexError)"

definition has_label :: "string \<Rightarrow> string \<Rightarrow> bool" where
  "has_label label line \<longleftrightarrow>
     prefix (''- **'' @ label @ ''**:'') line \<or> prefix (''**'' @ label @ ''**:'') line"

type_synonym parse_state = "pydict list \<times> pydict option"

text \<open>One iteration of the loop over the lines.\<close>

definition parse_line :: "parse_state \<Rightarrow> string \<Rightarrow> pyerr + parse_state" where
  "parse_line st raw_line =
     (let line = strip raw_line; topics = fst st; cur = snd st
      in case title_match line of
           Some g \<Rightarrow> Inr (close_topic topics cur, Some (new_topic (strip g)))
         | None \<Rightarrow>
             (case cur of
                None \<Rightarrow> Inr st
              | Some d \<Rightarrow>
                  if d = [] then Inr st
                  else if has_label ''Angle'' line then
                    (case field_value line of
                       Inl e \<Rightarrow> Inl e
                     | Inr v \<Rightarrow> Inr (topics, Some (AList.update ''angle'' (Str v) d)))
                  else if has_label ''Keywords'' line then
                    (case field_value line of
                       Inl e \<Rightarrow> Inl e
                     | Inr v \<Rightarrow>
                         Inr (topics, Some (AList.update ''keywords''
                                (StrList (map strip (split_on CHR '','' v))) d)))
                  else if has_label ''Rationale'' line then
                    (case field_value line of
                       Inl e \<Rightarrow> Inl e
                     | Inr v \<Rightarrow> Inr (topics, Some (AList.update ''rationale'' (Str v) d)))
                  else if has_label ''Content Type'' line then
                    (case field_value line of
                       Inl e \<Rightarrow> Inl e
                     | Inr v \<Rightarrow> Inr (topics, Some (AList.update ''content_type'' (Str v) d)))
                  else Inr st))"

fun parse_lines :: "parse_state \<Rightarrow> string list \<Rightarrow> pyerr + parse_state" where
  "parse_lines st [] = Inr st"
| "parse_lines st (l # ls) =
     (case parse_line st l of Inl e \<Rightarrow> Inl e | Inr st' \<Rightarrow> parse_lines st' ls)"

definition parse_topic_ideas :: "string \<Rightarrow> pyerr + pydict list" where
  "parse_topic_ideas raw_output =
     (case parse_lines ([], None) (split_on CHR ''\<newline>'' raw_output) of
        Inl e \<Rightarrow> Inl e
      | Inr st \<Rightarrow> Inr (close_topic (fst st) (snd st)))"

declare str_nat.simps [simp del]

subsection \<open>Invariant of the parsing loop\<close>

text \<open>
  The topics already appended have the five keys and a non-empty title; the topic being read has
  the five keys and some title, possibly empty.
\<close>

definition topic_keys :: "string list" where
  "topic_keys = [''title'', ''angle'', ''keywords'', ''rationale'', ''content_type'']"

definition open_topic :: "pydict \<Rightarrow> bool" where
  "open_topic d \<longleftrightarrow> map fst d = topic_keys \<and> (\<exists>t. map_of d ''title'' = Some (Str t))"

definition titled_topic :: "pydict \<Rightarrow> bool" where
  "titled_topic d \<longleftrightarrow> map fst d = topic_keys \<and> (\<exists>t. map_of d ''title'' = Some (Str t) \<and> t \<noteq> [])"

definition state_inv :: "parse_state \<Rightarrow> bool" where
  "state_inv st \<longleftrightarrow> list_all titled_topic (fst st) \<and> (case snd st of None \<Rightarrow> True | Some d \<Rightarrow> open_topic d)"


subsection \<open>The output format the prompt asks for\<close>

text \<open>
  The prompt built by \<open>_build_prompt\<close> asks the model for
  \<^verbatim>\<open>## 1. Compelling Title Here\<close>, \<^verbatim>\<open>- **Angle**: ...\<close>, \<^verbatim>\<open>- **Keywords**: ...\<close>,
  \<^verbatim>\<open>- **Rationale**: ...\<close>, \<^verbatim>\<open>- **Content Type**: ...\<close> for each topic. A block is one such
  topic: its number and title, the labelled lines that are present (in this order), and the
  blank lines after it. The comments of the parser name two variants it also accepts, a heading
  without the \<open>##\<close> marks and a labelled line without the dash; a block carries the number of
  heading marks (at most two, 2 in the prompt's format) and whether its labelled lines are
  dashed. \<open>expected_topic\<close> is the record such a block should parse to.
\<close>

record block =
  heading_marks :: nat
  dashed :: bool
  heading_no :: nat
  title_text :: string
  angle_text :: "string option"
  keywords_text :: "string option"
  rationale_text :: "string option"
  content_type_text :: "string option"
  blank_lines :: nat

definition heading_mark :: "nat \<Rightarrow> string" where
  "heading_mark h = (if h = 0 then [] else replicate h CHR ''#'' @ '' '')"

definition bullet :: "bool \<Rightarrow> string" where
  "bullet d = (if d then ''- '' else [])"

definition heading_line :: "block \<Rightarrow> string" where
  "heading_line b =
     heading_mark (heading_marks b) @ str_nat (heading_no b) @ ''. '' @ title_text b"

fun field_line :: "bool \<Rightarrow> string \<Rightarrow> string option \<Rightarrow> string list" where
  "field_line d label None = []"
| "field_line d label (Some v) = [bullet d @ ''**'' @ label @ ''**: '' @ v]"

definition block_lines :: "block \<Rightarrow> string list" where
  "block_lines b =
     heading_line b # field_line (dashed b) ''Angle'' (angle_text b)
       @ field_line (dashed b) ''Keywords'' (keywords_text b)
       @ field_line (dashed b) ''Rationale'' (rationale_text b)
       @ field_line (dashed b) ''Content Type'' (content_type_text b)
       @ replicate (blank_lines b) []"

definition convention_text :: "block list \<Rightarrow> string" where
  "convention_text bs = join ''\<newline>'' (concat (map block_lines bs))"

definition one_line :: "string \<Rightarrow> bool" where
  "one_line s \<longleftrightarrow> CHR ''\<newline>'' \<notin> set s"

fun one_line_opt :: "string option \<Rightarrow> bool" where
  "one_line_opt None = True"
| "one_line_opt (Some v) = one_line v"

definition wf_block :: "block \<Rightarrow> bool" where
  "wf_block b \<longleftrightarrow> heading_marks b \<le> 2 \<and>
     one_line (title_text b) \<and> strip (title_text b) \<noteq> [] \<and>
     one_line_opt (angle_text b) \<and> one_line_opt (keywords_text b) \<and>
     one_line_opt (rationale_text b) \<and> one_line_opt (content_type_text b)"

fun text_or_empty :: "string option \<Rightarrow> string" where
  "text_or_empty None = []"
| "text_or_empty (Some v) = strip v"

fun keywords_or_empty :: "string option \<Rightarrow> string list" where
  "keywords_or_empty None = []"
| "keywords_or_empty (Some v) = map strip (split_on CHR '','' (strip v))"

definition expected_topic :: "block \<Rightarrow> pydict" where
  "expected_topic b =
     [(''title'', Str (strip (title_text b))),
      (''angle'', Str (text_or_empty (angle_text b))),
      (''keywords'', StrList (keywords_or_empty (keywords_text b))),
      (''rationale'', Str (text_or_empty (rationale_text b))),
      (''content_type'', Str (text_or_empty (content_type_text b)))]"


section \<open>The prompt builder (\<open>TopicIdeaAgent._build_prompt\<close>)\<close>

text \<open>
  \<open>Optional[List[str]]\<close> and \<open>Optional[str]\<close> arguments are options; \<open>if not x\<close> holds of
  \<open>None\<close> and of the empty list or string. The slice \<open>xs[:n]\<close> is \<open>take n xs\<close>. The texts are
  the f-strings of the source, character for character.
\<close>

definition MAX_KEYWORDS :: nat where "MAX_KEYWORDS = 10"
definition MAX_EXISTING_TOPICS :: nat where "MAX_EXISTING_TOPICS = 50"

definition build_keyword_context :: "string list option \<Rightarrow> string" where
  "build_keyword_context target_keywords =
     (case target_keywords of
        None \<Rightarrow> []
      | Some kws \<Rightarrow>
          if kws = [] then []
          else (let keywords_to_use = take MAX_KEYWORDS kws
                in ''\<newline>'' @ ''\<newline>'' @
                   ''TARGET KEYWORDS TO INCORPORATE:\<newline>'' @
                   ''These keywords should be incorporated into the topic ideas for SEO. Try to build topics around these:\<newline>'' @
                   join '', '' keywords_to_use @
                   ''\<newline>''))"

definition build_product_context :: "string option \<Rightarrow> string" where
  "build_product_context product_target =
     (case product_target of
        None \<Rightarrow> []
      | Some p \<Rightarrow>
          if p = [] then []
          else ''\<newline>'' @ ''\<newline>'' @
               ''PRODUCT/SERVICE TO PROMOTE:\<newline>'' @
               p @
               ''\<newline>'' @ ''\<newline>'' @
               ''IMPORTANT: Create topics that naturally lead to this product as a solution. The content should provide value first, then subtly position the product as helpful. Avoid being overly promotional.\<newline>'')"

definition build_duplication_context :: "string list option \<Rightarrow> string" where
  "build_duplication_context existing_topics =
     (case existing_topics of
        None \<Rightarrow> []
      | Some ts \<Rightarrow>
          if ts = [] \<or> length ts = 0 then []
          else (let topics_sample = take MAX_EXISTING_TOPICS ts;
                    overflow_count = int (length ts) - int MAX_EXISTING_TOPICS;
                    overflow_text = (if overflow_count > 0
                                     then ''(and '' @ str_int overflow_count @ '' more...)''
                                     else [])
                in ''\<newline>'' @ ''\<newline>'' @
                   ''EXISTING BLOG POSTS TO AVOID DUPLICATING:\<newline>'' @
                   join ''\<newline>'' (map (\<lambda>title. ''- '' @ title) topics_sample) @
                   ''\<newline>'' @
                   overflow_text @
                   ''\<newline>'' @ ''\<newline>'' @
                   ''CRITICAL: Do NOT suggest topics that are too similar to these existing posts. Generate completely new angles and subjects.\<newline>''))"

definition build_prompt ::
  "string \<Rightarrow> string \<Rightarrow> string list option \<Rightarrow> string option \<Rightarrow> string list option \<Rightarrow> int \<Rightarrow> string" where
  "build_prompt reference_blog preferences target_keywords product_target existing_topics num_topics =
     (let keyword_context = build_keyword_context target_keywords;
          product_context = build_product_context product_target;
          duplication_context = build_duplication_context existing_topics
      in ''\<newline>'' @
         ''Generate '' @ str_int num_topics @ '' topic ideas for the blog: '' @ reference_blog @
         ''\<newline>'' @ ''\<newline>'' @
         ''Additional preferences:\<newline>'' @
         (if preferences \<noteq> [] then preferences else ''No specific preferences'') @
         ''\<newline>'' @ keyword_context @
         ''\<newline>'' @ product_context @
         ''\<newline>'' @ duplication_context @
         ''\<newline>'' @ ''\<newline>'' @
         ''Instructions:\<newline>'' @
         ''1. Quickly search '' @ reference_blog @
         '' for 3-5 recent articles to understand their style\<newline>'' @
         ''2. Generate '' @ str_int num_topics @
         '' specific, actionable topic ideas that match their content style\<newline>'' @
         ''3. Focus on topics they HAVEN'T covered yet - avoid duplicating the existing topics list above\<newline>'' @
         ''4. If target keywords were provided, prioritize topics that incorporate those high-value keywords\<newline>'' @
         ''5. If a product target was provided, create topics that naturally allow mentioning/promoting the product while providing genuine value\<newline>'' @
         ''\<newline>'' @
         ''For EACH topic, use this EXACT format:\<newline>'' @
         ''## 1. Compelling Title Here\<newline>'' @
         ''- **Angle**: One sentence unique perspective\<newline>'' @
         ''- **Keywords**: keyword1, keyword2, keyword3\<newline>'' @
         ''- **Rationale**: One sentence why this works\<newline>'' @
         ''- **Content Type**: Guide/Tutorial/Listicle/Case Study\<newline>'' @
         ''\<newline>'' @
         ''Generate all '' @ str_int num_topics @
         '' topics now. Be concise but specific.\<newline>'')"

text \<open>The first line of each optional section, and a test used in the proofs: some proper,
  non-empty end of the first string starts the second.\<close>

definition keyword_heading :: string where
  "keyword_heading = ''TARGET KEYWORDS TO INCORPORATE:''"
definition product_heading :: string where
  "product_heading = ''PRODUCT/SERVICE TO PROMOTE:''"
definition duplication_heading :: string where
  "duplication_heading = ''EXISTING BLOG POSTS TO AVOID DUPLICATING:''"

fun overlaps :: "string \<Rightarrow> string \<Rightarrow> bool" where
  "overlaps [] X = False"
| "overlaps (c # cs) X = ((cs \<noteq> [] \<and> prefix cs X) \<or> overlaps cs X)"


section \<open>The blog post pipeline (\<open>BlogAgentOrchestrator.create_blog_post\<close>)\<close>

text \<open>
  \<open>Runner.run_sync\<close> is a parameter of the model: given the number of calls made so far, the
  agent and the prompt, it returns the run's \<open>final_output\<close> or raises. An exception is
  modelled by its message, which is all the code reads of it. Every function returns, next to
  its value, the log of the model calls made so far, so that what a run did can be stated. The
  progress callback is the default \<open>None\<close> and the \<open>print\<close> calls are left out; the event loop
  bookkeeping of \<open>_run_agent_safely\<close> is taken to succeed.
\<close>

text \<open>\<open>str.lower\<close> on the code points below 256.\<close>

definition lower_char :: "char \<Rightarrow> char" where
  "lower_char c =
     (let n = (of_char c :: nat)
      in if (65 \<le> n \<and> n \<le> 90) \<or> (192 \<le> n \<and> n \<le> 222 \<and> n \<noteq> 215) then char_of (n + 32) else c)"

definition lower :: "string \<Rightarrow> string" where
  "lower s = map lower_char s"

datatype pyexn = Exception string

fun exn_str :: "pyexn \<Rightarrow> string" where
  "exn_str (Exception msg) = msg"

datatype agent = StyleAnalyzer | Researcher | Writer | Editor

type_synonym runner = "nat \<Rightarrow> agent \<Rightarrow> string \<Rightarrow> pyexn + string"

type_synonym call_log = "(agent \<times> string) list"

text \<open>
  \<open>_run_agent_safely\<close>: one call; when it raises with "event loop" in the lower-cased message,
  one more call in a fresh thread, whose result or exception is the outcome.
\<close>

definition run_agent_safely ::
  "runner \<Rightarrow> call_log \<Rightarrow> agent \<Rightarrow> string \<Rightarrow> (pyexn + string) \<times> call_log" where
  "run_agent_safely run_sync log agent prompt =
     (case run_sync (length log) agent prompt of
        Inr out \<Rightarrow> (Inr out, log @ [(agent, prompt)])
      | Inl e \<Rightarrow>
          if str_contains (lower (exn_str e)) ''event loop''
          then (run_sync (Suc (length log)) agent prompt, log @ [(agent, prompt), (agent, prompt)])
          else (Inl e, log @ [(agent, prompt)]))"

definition style_prompt :: "string \<Rightarrow> string" where
  "style_prompt blog_source =
     ''\<newline>'' @
     ''        Analyze the writing style of '' @ blog_source @ ''.\<newline>'' @
     ''        \<newline>'' @
     ''        Instructions:\<newline>'' @
     ''        1. Search for recent articles from '' @ blog_source @ ''\<newline>'' @
     ''        2. Analyze multiple articles to identify consistent patterns\<newline>'' @
     ''        3. Extract the publication's distinctive voice and style characteristics\<newline>'' @
     ''        4. Create a detailed style guide that includes specific examples\<newline>'' @
     ''        \<newline>'' @
     ''        Focus on recent articles to capture current writing style.\<newline>'' @
     ''        ''"

text \<open>\<open>analyze_blog_style\<close> catches the exception of its call and returns a text instead.\<close>

definition analyze_blog_style :: "runner \<Rightarrow> call_log \<Rightarrow> string \<Rightarrow> string \<times> call_log" where
  "analyze_blog_style run_sync log blog_source =
     (case run_agent_safely run_sync log StyleAnalyzer (style_prompt blog_source) of
        (Inr out, log') \<Rightarrow> (out, log')
      | (Inl e, log') \<Rightarrow> (''Style analysis failed: '' @ exn_str e, log'))"

definition research_prompt :: "string \<Rightarrow> string \<Rightarrow> string" where
  "research_prompt topic requirements =
     ''Research the topic: '' @ topic @ ''\<newline>'' @ ''\<newline>'' @ ''Requirements: '' @ requirements"

definition writing_prompt :: "string \<Rightarrow> string \<Rightarrow> string \<Rightarrow> string \<Rightarrow> string \<Rightarrow> string" where
  "writing_prompt topic style_guide research requirements reference_blog =
     ''\<newline>'' @
     ''            Write a blog post about: '' @ topic @ ''\<newline>'' @
     ''            \<newline>'' @
     ''            STYLE GUIDE TO FOLLOW:\<newline>'' @
     ''            '' @ style_guide @ ''\<newline>'' @
     ''            \<newline>'' @
     ''            RESEARCH DATA:\<newline>'' @
     ''            '' @ research @ ''\<newline>'' @
     ''            \<newline>'' @
     ''            REQUIREMENTS: '' @ requirements @ ''\<newline>'' @
     ''            \<newline>'' @
     ''            Write the post to closely match the style and voice of '' @ reference_blog @ ''.\<newline>'' @
     ''            Use the specific patterns, tone, and techniques identified in the style guide.\<newline>'' @
     ''            ''"

definition editing_prompt :: "string \<Rightarrow> string \<Rightarrow> string \<Rightarrow> string" where
  "editing_prompt reference_blog style_guide draft =
     ''\<newline>'' @
     ''            Edit this blog post while preserving the '' @ reference_blog @ '' style:\<newline>'' @
     ''            \<newline>'' @
     ''            ORIGINAL STYLE GUIDE:\<newline>'' @
     ''            '' @ style_guide @ ''\<newline>'' @
     ''            \<newline>'' @
     ''            DRAFT TO EDIT:\<newline>'' @
     ''            '' @ draft @ ''\<newline>'' @
     ''            \<newline>'' @
     ''            Improve grammar, flow, and clarity while maintaining the distinctive voice and style patterns.\<newline>'' @
     ''            ''"

text \<open>
  \<open>create_blog_post\<close>: the \<open>results\<close> dictionary is filled stage by stage inside one
  \<open>try\<close>; the \<open>except\<close> branch adds the \<open>error\<close> entry to the same dictionary and returns it.
\<close>

type_synonym results = "(string \<times> string) list"

definition create_blog_post ::
  "runner \<Rightarrow> string \<Rightarrow> string \<Rightarrow> string \<Rightarrow> results \<times> call_log" where
  "create_blog_post run_sync topic reference_blog requirements =
     (case analyze_blog_style run_sync [] reference_blog of (style_guide, log1) \<Rightarrow>
      let results1 = AList.update ''style_guide'' style_guide []
      in case run_agent_safely run_sync log1 Researcher (research_prompt topic requirements) of
           (Inl e, log2) \<Rightarrow> (AList.update ''error'' (exn_str e) results1, log2)
         | (Inr research, log2) \<Rightarrow>
             let results2 = AList.update ''research'' research results1
             in case run_agent_safely run_sync log2 Writer
                       (writing_prompt topic style_guide research requirements reference_blog) of
                  (Inl e, log3) \<Rightarrow> (AList.update ''error'' (exn_str e) results2, log3)
                | (Inr draft, log3) \<Rightarrow>
                    let results3 = AList.update ''draft'' draft results2
                    in case run_agent_safely run_sync log3 Editor
                              (editing_prompt reference_blog style_guide draft) of
                         (Inl e, log4) \<Rightarrow> (AList.update ''error'' (exn_str e) results3, log4)
                       | (Inr final, log4) \<Rightarrow> (AList.update ''final'' final results3, log4))"

text \<open>A model that always returns the same text, and one that raises for one agent.\<close>

definition mock_runner :: "string \<Rightarrow> runner" where
  "mock_runner s = (\<lambda>i a p. Inr s)"

definition failing_runner :: "agent \<Rightarrow> string \<Rightarrow> string \<Rightarrow> runner" where
  "failing_runner bad msg s = (\<lambda>i a p. if a = bad then Inl (Exception msg) else Inr s)"


subsection \<open>Concrete inputs\<close>

text \<open>Two blocks in the requested format, used as a concrete instance below.\<close>

definition sample_blocks :: "block list" where
  "sample_blocks =
     [\<lparr>heading_marks = 2, dashed = True, heading_no = 1, title_text = ''Remote Work Myths'',
        angle_text = Some ''What the data says'',
        keywords_text = Some ''remote work, productivity'', rationale_text = None,
        content_type_text = Some ''Guide'', blank_lines = 1\<rparr>,
      \<lparr>heading_marks = 0, dashed = False, heading_no = 2, title_text = ''Async by Default'',
        angle_text = None,
        keywords_text = None, rationale_text = Some ''Readers ask for it'',
        content_type_text = None, blank_lines = 0\<rparr>]"

text \<open>Concrete inputs beyond the caps, used as instances below.\<close>

definition eleven_keywords :: "string list" where
  "eleven_keywords = [''k1'', ''k2'', ''k3'', ''k4'', ''k5'', ''k6'', ''k7'', ''k8'', ''k9'', ''k10'', ''k11'']"

definition many_titles :: "string list" where
  "many_titles = replicate 52 ''Old post''"

section \<open>The markdown export (\<open>app_v2.main\<close>)\<close>

text \<open>
  \<open>f"{topic.get(k, default)}"\<close>. A string is rendered as it is; the rendering of a list (its
  \<open>repr\<close>) is left out of the model, which gives \<open>None\<close> there: the parser never stores a list
  under these keys.
\<close>

definition fmt_get :: "pydict \<Rightarrow> string \<Rightarrow> string \<Rightarrow> string option" where
  "fmt_get topic k dflt =
     (case map_of topic k of
        None \<Rightarrow> Some dflt
      | Some (Str s) \<Rightarrow> Some s
      | Some (StrList l) \<Rightarrow> None)"

text \<open>\<open>', '.join(topic.get('keywords', []))\<close>: joining a string joins its characters.\<close>

definition join_keywords :: "pydict \<Rightarrow> string" where
  "join_keywords topic =
     (case map_of topic ''keywords'' of
        None \<Rightarrow> join '', '' []
      | Some (StrList l) \<Rightarrow> join '', '' l
      | Some (Str s) \<Rightarrow> join '', '' (map (\<lambda>c. [c]) s))"

text \<open>The text one iteration of the export loop appends, for the topic at index \<open>i\<close>.\<close>

definition topic_md :: "nat \<Rightarrow> pydict \<Rightarrow> string option" where
  "topic_md i topic =
     (case (fmt_get topic ''title'' ''Untitled'', fmt_get topic ''angle'' ''N/A'',
            fmt_get topic ''rationale'' ''N/A'', fmt_get topic ''content_type'' ''N/A'') of
        (Some t, Some a, Some r, Some c) \<Rightarrow>
          Some (''## '' @ str_int (int i + 1) @ ''. '' @ t @ ''\<newline>\<newline>'' @
                ''- **Angle:** '' @ a @ ''\<newline>'' @
                ''- **Keywords:** '' @ join_keywords topic @ ''\<newline>'' @
                ''- **Rationale:** '' @ r @ ''\<newline>'' @
                ''- **Content Type:** '' @ c @ ''\<newline>\<newline>'')
      | _ \<Rightarrow> None)"

fun md_loop :: "nat \<Rightarrow> string \<Rightarrow> pydict list \<Rightarrow> string option" where
  "md_loop i md [] = Some md"
| "md_loop i md (topic # rest) =
     (case topic_md i topic of
        None \<Rightarrow> None
      | Some s \<Rightarrow> md_loop (Suc i) (md @ s) rest)"

definition md_content :: "pydict list \<Rightarrow> string option" where
  "md_content topics = md_loop 0 ''# Generated Topic Ideas\<newline>\<newline>'' topics"

text \<open>
  A well-formed topic record has the shape the parser produces: the five fields with their types,
  each text on one line, and a title that is not blank.
\<close>

fun text_field :: "pyval option \<Rightarrow> bool" where
  "text_field (Some (Str s)) = one_line s"
| "text_field _ = False"

fun list_field :: "pyval option \<Rightarrow> bool" where
  "list_field (Some (StrList l)) = list_all one_line l"
| "list_field _ = False"

definition title_of :: "pydict \<Rightarrow> string" where
  "title_of d = (case map_of d ''title'' of Some (Str t) \<Rightarrow> t | _ \<Rightarrow> [])"

definition wf_topic :: "pydict \<Rightarrow> bool" where
  "wf_topic d \<longleftrightarrow>
     text_field (map_of d ''title'') \<and> strip (title_of d) \<noteq> [] \<and>
     text_field (map_of d ''angle'') \<and> list_field (map_of d ''keywords'') \<and>
     text_field (map_of d ''rationale'') \<and> text_field (map_of d ''content_type'')"

text \<open>The lines of the export, for the proofs.\<close>

definition topic_md_lines :: "nat \<Rightarrow> pydict \<Rightarrow> string list" where
  "topic_md_lines i topic =
     [''## '' @ str_nat (Suc i) @ ''. '' @ title_of topic, [],
      ''- **Angle:** '' @ the (fmt_get topic ''angle'' ''N/A''),
      ''- **Keywords:** '' @ join_keywords topic,
      ''- **Rationale:** '' @ the (fmt_get topic ''rationale'' ''N/A''),
      ''- **Content Type:** '' @ the (fmt_get topic ''content_type'' ''N/A''), []]"

fun md_lines :: "nat \<Rightarrow> pydict list \<Rightarrow> string list" where
  "md_lines i [] = []"
| "md_lines i (d # ds) = topic_md_lines i d @ md_lines (Suc i) ds"

definition unlines :: "string list \<Rightarrow> string" where
  "unlines ls = concat (map (\<lambda>l. l @ ''\<newline>'') ls)"

definition sample_topic :: pydict where
  "sample_topic =
     [(''title'', Str ''Remote Work Myths''), (''angle'', Str ''What the data says''),
      (''keywords'', StrList [''remote work'', ''productivity'']), (''rationale'', Str ''Timely''),
      (''content_type'', Str ''Guide'')]"

section \<open>The agent-builder workflow (\<open>run_workflow\<close>)\<close>

text \<open>
  The workflow state is a Python \<open>dict\<close> whose values are \<open>None\<close>, strings or lists of strings;
  a nested key such as \<open>state["response_schema"]["root_blog_url"]\<close> is addressed by its path.
  Each agent call is a parameter of the model: it maps the agent and the context object it is
  given (attribute names with their values) to the parsed output (field names with their values),
  or raises. Every access to the state is recorded, in program order, with the stage that makes it.
\<close>

datatype jval = JNone | JStr string | JList "string list"

type_synonym path = "string list"

datatype wf_agent =
  W_text_to_json | W_writing_style | W_research | W_writer | W_seo_analyzer | W_internal_links | W_editor

datatype access = Read wf_agent path | Write wf_agent path

datatype wf_error = AgentRaised pyexn | KeyError string

type_synonym wf_runner = "wf_agent \<Rightarrow> (string \<times> jval) list \<Rightarrow> pyexn + (string \<times> jval) list"

record wf_run =
  wf_state :: "(path \<times> jval) list"
  accesses :: "access list"
  calls :: "(wf_agent \<times> (string \<times> jval) list) list"

text \<open>The \<open>state\<close> literal at the start of \<open>run_workflow\<close>.\<close>

definition initial_state :: "(path \<times> jval) list" where
  "initial_state =
     [([''response_schema'', ''existing_blog_posts_to_avoid''], JList []),
      ([''response_schema'', ''high_performing_pages''], JList []),
      ([''response_schema'', ''root_blog_url''], JStr []),
      ([''response_schema'', ''seo_keywords''], JList []),
      ([''response_schema'', ''target_product_urls''], JList []),
      ([''response_schema'', ''topic''], JStr []),
      ([''global'', ''existing_blog_posts_to_avoid''], JList []),
      ([''global'', ''high_performing_pages''], JList []),
      ([''global'', ''root_blog_url''], JStr []),
      ([''global'', ''seo_keywords''], JList []),
      ([''global'', ''target_product_urls''], JList []),
      ([''global'', ''topic''], JStr []),
      ([''existing_blog_posts_to_avoid''], JList []),
      ([''high_performing_pages''], JList []),
      ([''root_blog_url''], JNone),
      ([''seo_keywords''], JList []),
      ([''target_product_urls''], JList []),
      ([''topics''], JList []),
      ([''writing_style''], JNone),
      ([''writing_requirements''], JNone),
      ([''research''], JNone),
      ([''writer_draft''], JNone),
      ([''seo_analyze_first_pass''], JNone),
      ([''internal_links''], JNone),
      ([''edit_output''], JNone)]"

text \<open>The keyword arguments of a context object that are read from the state, left to right.\<close>

fun lookup_all :: "(path \<times> jval) list \<Rightarrow> (string \<times> path) list \<Rightarrow> wf_error + (string \<times> jval) list" where
  "lookup_all st [] = Inr []"
| "lookup_all st ((attr, p) # rest) =
     (case map_of st p of
        None \<Rightarrow> Inl (KeyError (last p))
      | Some v \<Rightarrow>
          (case lookup_all st rest of
             Inl e \<Rightarrow> Inl e
           | Inr ctx \<Rightarrow> Inr ((attr, v) # ctx)))"

text \<open>The assignments \<open>state[p] = result["output_parsed"][k]\<close> after a call, in order.\<close>

fun store_all :: "wf_agent \<Rightarrow> (string \<times> jval) list \<Rightarrow> (path \<times> string) list \<Rightarrow> wf_run \<Rightarrow> wf_error + wf_run" where
  "store_all ag out [] r = Inr r"
| "store_all ag out ((p, k) # rest) r =
     (case map_of out k of
        None \<Rightarrow> Inl (KeyError k)
      | Some v \<Rightarrow>
          store_all ag out rest
            (r\<lparr>wf_state := AList.update p v (wf_state r), accesses := accesses r @ [Write ag p]\<rparr>))"

text \<open>
  One stage: build the context (\<open>extra\<close> holds the arguments that do not come from the state),
  run the agent, store its output.
\<close>

definition run_stage ::
  "wf_runner \<Rightarrow> wf_agent \<Rightarrow> (string \<times> jval) list \<Rightarrow> (string \<times> path) list \<Rightarrow> (path \<times> string) list
     \<Rightarrow> wf_run \<Rightarrow> wf_error + (wf_run \<times> (string \<times> jval) list)" where
  "run_stage runner ag extra reads writes r =
     (case lookup_all (wf_state r) reads of
        Inl e \<Rightarrow> Inl e
      | Inr ctx \<Rightarrow>
          (let r1 = r\<lparr>accesses := accesses r @ map (\<lambda>(attr, p). Read ag p) reads,
                      calls := calls r @ [(ag, extra @ ctx)]\<rparr>
           in case runner ag (extra @ ctx) of
                Inl e \<Rightarrow> Inl (AgentRaised e)
              | Inr out \<Rightarrow>
                  (case store_all ag out writes r1 of
                     Inl e \<Rightarrow> Inl e
                   | Inr r2 \<Rightarrow> Inr (r2, out))))"

definition run_workflow :: "wf_runner \<Rightarrow> string \<Rightarrow> wf_error + wf_run" where
  "run_workflow runner input_as_text =
     (case run_stage runner W_text_to_json [(''workflow_input_as_text'', JStr input_as_text)] []
             [([''existing_blog_posts_to_avoid''], ''existing_blog_posts_to_avoid''),
              ([''high_performing_pages''], ''high_performing_pages''),
              ([''root_blog_url''], ''root_blog_url''),
              ([''seo_keywords''], ''seo_keywords''),
              ([''target_product_urls''], ''target_product_urls''),
              ([''topics''], ''topics''),
              ([''writing_requirements''], ''writing_requirements'')]
             \<lparr>wf_state = initial_state, accesses = [], calls = []\<rparr> of
        Inl e \<Rightarrow> Inl e
      | Inr (r1, _) \<Rightarrow>
     (case run_stage runner W_writing_style []
             [(''state_root_blog_url'', [''root_blog_url'']),
              (''state_high_performing_pages'', [''high_performing_pages''])]
             [([''writing_style''], ''writing_style_output'')] r1 of
        Inl e \<Rightarrow> Inl e
      | Inr (r2, _) \<Rightarrow>
     (case run_stage runner W_research []
             [(''state_topics'', [''topics'']),
              (''state_writing_requirements'', [''writing_requirements'']),
              (''state_target_product_urls'', [''target_product_urls''])]
             [([''research''], ''research_output'')] r2 of
        Inl e \<Rightarrow> Inl e
      | Inr (r3, _) \<Rightarrow>
     (case run_stage runner W_writer []
             [(''state_topics'', [''topics'']),
              (''state_writing_style'', [''writing_style'']),
              (''state_research'', [''research'']),
              (''state_writing_requirements'', [''writing_requirements'']),
              (''state_root_blog_url'', [''root_blog_url''])]
             [([''writer_draft''], ''writer_output'')] r3 of
        Inl e \<Rightarrow> Inl e
      | Inr (r4, _) \<Rightarrow>
     (case run_stage runner W_seo_analyzer []
             [(''state_writer_draft'', [''writer_draft'']),
              (''state_topics'', [''topics'']),
              (''state_root_blog_url'', [''root_blog_url''])]
             [([''seo_analyze_first_pass''], ''seo_analzyer_first_pass_output'')] r4 of
        Inl e \<Rightarrow> Inl e
      | Inr (r5, _) \<Rightarrow>
     (case run_stage runner W_internal_links []
             [(''state_writer_draft'', [''writer_draft'']),
              (''state_response_schema_root_blog_url'', [''response_schema'', ''root_blog_url'']),
              (''state_seo_analyze_first_pass'', [''seo_analyze_first_pass'']),
              (''state_response_schema_topic'', [''response_schema'', ''topic''])]
             [([''internal_links''], ''internal_links_output'')] r5 of
        Inl e \<Rightarrow> Inl e
      | Inr (r6, internal_links_output_parsed) \<Rightarrow>
     (case map_of internal_links_output_parsed ''internal_links_output'' of
        None \<Rightarrow> Inl (KeyError ''internal_links_output'')
      | Some links \<Rightarrow>
     (case run_stage runner W_editor [(''input_output_parsed_internal_links_output'', links)]
             [(''state_root_blog_url'', [''root_blog_url'']),
              (''state_writing_style'', [''writing_style'']),
              (''state_seo_analyze_first_pass'', [''seo_analyze_first_pass''])]
             [] r6 of
        Inl e \<Rightarrow> Inl e
      | Inr (r7, _) \<Rightarrow> Inr r7))))))))"

text \<open>The paths written before position \<open>i\<close> of a list of accesses, and the reads that no
  earlier write populated.\<close>

fun written :: "access list \<Rightarrow> path list" where
  "written [] = []"
| "written (Write ag p # rest) = p # written rest"
| "written (Read ag p # rest) = written rest"

fun unpopulated_reads :: "path list \<Rightarrow> access list \<Rightarrow> access list" where
  "unpopulated_reads ws [] = []"
| "unpopulated_reads ws (Write ag p # rest) = unpopulated_reads (p # ws) rest"
| "unpopulated_reads ws (Read ag p # rest) =
     (if p \<in> set ws then unpopulated_reads ws rest else Read ag p # unpopulated_reads ws rest)"

text \<open>A model that extracts the blog's address and answers every later stage with a fixed text.\<close>

definition sample_runner :: wf_runner where
  "sample_runner ag ctx =
     (case ag of
        W_text_to_json \<Rightarrow>
          Inr [(''existing_blog_posts_to_avoid'', JList []), (''high_performing_pages'', JList []),
               (''root_blog_url'', JStr ''ExampleBlog.com''), (''seo_keywords'', JList []),
               (''target_product_urls'', JList []), (''topics'', JList [''Remote Work'']),
               (''writing_requirements'', JStr [])]
      | W_writing_style \<Rightarrow> Inr [(''writing_style_output'', JStr ''style'')]
      | W_research \<Rightarrow> Inr [(''research_output'', JStr ''notes'')]
      | W_writer \<Rightarrow> Inr [(''writer_output'', JStr ''draft'')]
      | W_seo_analyzer \<Rightarrow> Inr [(''seo_analzyer_first_pass_output'', JStr ''seo'')]
      | W_internal_links \<Rightarrow> Inr [(''internal_links_output'', JStr ''linked'')]
      | W_editor \<Rightarrow> Inr [(''output_text'', JStr ''final'')])"

definition sample_run :: wf_run where
  "sample_run = (case run_workflow sample_runner ''Write about Remote Work for ExampleBlog.com'' of
                   Inr r \<Rightarrow> r
                 | Inl e \<Rightarrow> \<lparr>wf_state = [], accesses = [], calls = []\<rparr>)"

text \<open>The accesses of a run in which every stage succeeds.\<close>

definition workflow_accesses :: "access list" where
  "workflow_accesses =
     [Write W_text_to_json [''existing_blog_posts_to_avoid''],
      Write W_text_to_json [''high_performing_pages''],
      Write W_text_to_json [''root_blog_url''],
      Write W_text_to_json [''seo_keywords''],
      Write W_text_to_json [''target_product_urls''],
      Write W_text_to_json [''topics''],
      Write W_text_to_json [''writing_requirements''],
      Read W_writing_style [''root_blog_url''],
      Read W_writing_style [''high_performing_pages''],
      Write W_writing_style [''writing_style''],
      Read W_research [''topics''],
      Read W_research [''writing_requirements''],
      Read W_research [''target_product_urls''],
      Write W_research [''research''],
      Read W_writer [''topics''],
      Read W_writer [''writing_style''],
      Read W_writer [''research''],
      Read W_writer [''writing_requirements''],
      Read W_writer [''root_blog_url''],
      Write W_writer [''writer_draft''],
      Read W_seo_analyzer [''writer_draft''],
      Read W_seo_analyzer [''topics''],
      Read W_seo_analyzer [''root_blog_url''],
      Write W_seo_analyzer [''seo_analyze_first_pass''],
      Read W_internal_links [''writer_draft''],
      Read W_internal_links [''response_schema'', ''root_blog_url''],
      Read W_internal_links [''seo_analyze_first_pass''],
      Read W_internal_links [''response_schema'', ''topic''],
      Write W_internal_links [''internal_links''],
      Read W_editor [''root_blog_url''],
      Read W_editor [''writing_style''],
      Read W_editor [''seo_analyze_first_pass'']]"

section \<open>What the callers show of a result (\<open>app.main\<close>, \<open>blog_orchestrator.main\<close>)\<close>

text \<open>
  The page of \<open>app.py\<close> after \<open>create_blog_post\<close> has returned: when the result has an
  \<open>error\<close> key, one \<open>st.error\<close> alert with the message (after a fixed cross mark and
  \<open>Error:\<close>); otherwise the five tabs. Only the elements that carry data of the result are
  modelled, not the fixed captions. An index \<open>results[k]\<close> of a missing key raises: \<open>None\<close>.
  During the run the page shows fixed progress captions and, at a failure, the same error message.
\<close>

datatype ui_element =
  Error_alert string
  | Final_post string | Download_final string
  | Links_post string | Links_unavailable
  | Draft_area string | Draft_unavailable
  | Style_guide_area string | Research_area string

definition show_results :: "results \<Rightarrow> ui_element list option" where
  "show_results results =
     (case map_of results ''error'' of
        Some e \<Rightarrow> Some [Error_alert e]
      | None \<Rightarrow>
          (case (map_of results ''final'', map_of results ''style_guide'', map_of results ''research'') of
             (Some final, Some style_guide, Some research) \<Rightarrow>
               Some ([Final_post final, Download_final final]
                     @ (case map_of results ''with_links'' of
                          Some l \<Rightarrow> [Links_post l] | None \<Rightarrow> [Links_unavailable])
                     @ (case map_of results ''draft'' of
                          Some d \<Rightarrow> [Draft_area d] | None \<Rightarrow> [Draft_unavailable])
                     @ [Style_guide_area style_guide, Research_area research])
           | _ \<Rightarrow> None))"

text \<open>
  What \<open>main\<close> of \<open>blog_orchestrator.py\<close> prints of the result: the error message alone and
  then \<open>return\<close>, or the final post and the first 500 characters of the style guide (the banner
  lines are left out).
\<close>

datatype console_line = Error_line string | Printed string

definition main_report :: "results \<Rightarrow> console_line list option" where
  "main_report results =
     (case map_of results ''error'' of
        Some e \<Rightarrow> Some [Error_line e]
      | None \<Rightarrow>
          (case (map_of results ''final'', map_of results ''style_guide'') of
             (Some final, Some style_guide) \<Rightarrow>
               Some [Printed final,
                     Printed (if length style_guide > 500 then take 500 style_guide @ ''...''
                              else style_guide)]
           | _ \<Rightarrow> None))"


section \<open>Parallel research (\<open>BlogAgentOrchestrator.parallel_research\<close>)\<close>

text \<open>
  The thread pool runs one \<open>research_area\<close> call per entry of \<open>research_areas\<close>; task \<open>i\<close> is the
  call for the \<open>i\<close>-th entry. Nothing in the code fixes the order in which the calls complete,
  so that order is a parameter: \<open>schedule\<close> lists the tasks in the order of completion (an entry
  that names no pending task is skipped). As in the pipeline, the answer of \<open>Runner.run_sync\<close>
  may depend on the number of calls completed before it. \<open>future.result()\<close> waits for its
  task, and leaving the \<open>with\<close> block waits for every task: when some task never completes the
  function does not return, which is the value \<open>None\<close>.
\<close>

definition area_prompt :: "string \<Rightarrow> string \<Rightarrow> string" where
  "area_prompt topic area = ''Research specifically about '' @ area @ '' in relation to '' @ topic"

text \<open>\<open>futures = {area: executor.submit(research_area, area) for area in research_areas}\<close>\<close>

fun submit_all :: "nat \<Rightarrow> string list \<Rightarrow> (string \<times> nat) list \<Rightarrow> (string \<times> nat) list" where
  "submit_all i [] futures = futures"
| "submit_all i (area # rest) futures = submit_all (Suc i) rest (AList.update area i futures)"

type_synonym completed = "(nat \<times> (pyexn + string)) list"

text \<open>The worker calls, in the order of the schedule; each stores what its call returned or raised.\<close>

fun run_workers :: "runner \<Rightarrow> string \<Rightarrow> string list \<Rightarrow> completed \<Rightarrow> nat list \<Rightarrow> completed" where
  "run_workers run_sync topic areas finished [] = finished"
| "run_workers run_sync topic areas finished (i # rest) =
     (if i < length areas \<and> map_of finished i = None
      then run_workers run_sync topic areas
             (finished @ [(i, run_sync (length finished) Researcher (area_prompt topic (areas ! i)))])
             rest
      else run_workers run_sync topic areas finished rest)"

text \<open>\<open>results = {area: future.result() for area, future in futures.items()}\<close>: the first
  future whose call raised re-raises its exception.\<close>

fun collect :: "(string \<times> nat) list \<Rightarrow> completed \<Rightarrow> results \<Rightarrow> (pyexn + results) option" where
  "collect [] finished results = Some (Inr results)"
| "collect ((area, i) # rest) finished results =
     (case map_of finished i of
        None \<Rightarrow> None
      | Some (Inl e) \<Rightarrow> Some (Inl e)
      | Some (Inr out) \<Rightarrow> collect rest finished (AList.update area out results))"

definition parallel_research ::
  "runner \<Rightarrow> string \<Rightarrow> string list \<Rightarrow> nat list \<Rightarrow> (pyexn + results) option" where
  "parallel_research run_sync topic research_areas schedule =
     (let futures = submit_all 0 research_areas [];
          finished = run_workers run_sync topic research_areas [] schedule
      in if list_all (\<lambda>i. map_of finished i \<noteq> None) [0..<length research_areas]
         then collect futures finished []
         else None)"

text \<open>A model whose answer names the call's position, and three areas, one of them twice.\<close>

definition counting_runner :: runner where
  "counting_runner k a p = Inr (p @ '' (call '' @ str_nat k @ '')'')"

definition sample_areas :: "string list" where
  "sample_areas = [''tools'', ''culture'', ''tools'']"

text \<open>Every completed entry is the answer to the call for its own area.\<close>

definition answered :: "runner \<Rightarrow> string \<Rightarrow> string list \<Rightarrow> completed \<Rightarrow> bool" where
  "answered run_sync topic areas finished \<longleftrightarrow>
     (\<forall>i r. map_of finished i = Some r \<longrightarrow>
        i < length areas \<and> (\<exists>k. r = run_sync k Researcher (area_prompt topic (areas ! i))))"


section \<open>Properties\<close>

subsection \<open>The parser never raises and keeps its invariant\<close>

lemma split_once_colon:
  assumes "c \<in> set s"
  shows "\<exists>a b. split_once c s = [a, b]"
proof -
  from assms have "dropWhile (\<lambda>x. x \<noteq> c) s \<noteq> []" by (simp add: dropWhile_eq_Nil_conv) 
  then show ?thesis by (auto simp: split_once_def split: list.splits)
qed

lemma has_label_colon: "has_label l line \<Longrightarrow> CHR '':'' \<in> set line"
  by (auto simp: has_label_def prefix_def)

lemma field_value_ok: "has_label l line \<Longrightarrow> \<exists>v. field_value line = Inr v"
  using split_once_colon[OF has_label_colon, of l line]
  by (auto simp: field_value_def)

lemma parse_line_total: "\<exists>st'. parse_line st l = Inr st'"
proof -
  have *: "\<And>lab. has_label lab (strip l) \<Longrightarrow> \<exists>v. field_value (strip l) = Inr v"
    by (rule field_value_ok)
  show ?thesis
    unfolding parse_line_def Let_def
    by (auto split: option.splits sum.splits dest: *)
qed

lemma parse_lines_total: "\<exists>st'. parse_lines st ls = Inr st'"
proof (induction ls arbitrary: st)
  case Nil show ?case by simp
next
  case (Cons l ls)
  obtain st1 where "parse_line st l = Inr st1" using parse_line_total by blast
  with Cons show ?case by simp
qed

lemma open_new_topic: "open_topic (new_topic t)"
  by (simp add: open_topic_def new_topic_def topic_keys_def)

lemma open_update:
  assumes "open_topic d" "k \<in> set topic_keys" "k \<noteq> ''title''"
  shows "open_topic (AList.update k v d)"
  using assms by (auto simp: open_topic_def update_keys update_conv')

lemma close_topic_inv: "state_inv (ts, cur) \<Longrightarrow> list_all titled_topic (close_topic ts cur)"
  by (cases cur) (auto simp: state_inv_def close_topic_def open_topic_def titled_topic_def elim: truthy.elims)

lemma parse_line_inv:
  assumes "state_inv st" "parse_line st l = Inr st'"
  shows "state_inv st'"
proof (cases "title_match (strip l)")
  case (Some g)
  with assms(2) have "st' = (close_topic (fst st) (snd st), Some (new_topic (strip g)))"
    by (simp add: parse_line_def Let_def)
  moreover have "list_all titled_topic (close_topic (fst st) (snd st))"
    using close_topic_inv[of "fst st" "snd st"] assms(1) by simp
  ultimately show ?thesis by (simp add: state_inv_def open_new_topic)
next
  case None
  show ?thesis
  proof (cases "snd st")
    case N: None
    with None assms show ?thesis by (simp add: parse_line_def Let_def)
  next
    case (Some d)
    then have od: "open_topic d" and ts: "list_all titled_topic (fst st)"
      using assms(1) by (auto simp: state_inv_def)
    have upd: "\<And>k v. k \<in> set topic_keys \<Longrightarrow> k \<noteq> ''title'' \<Longrightarrow> state_inv (fst st, Some (AList.update k v d))"
      using od ts by (simp add: state_inv_def open_update)
    from assms(2) None Some show ?thesis
      unfolding parse_line_def Let_def
      using assms(1) upd
      by (auto split: if_splits sum.splits simp: topic_keys_def)
  qed
qed

lemma parse_lines_inv: "state_inv st \<Longrightarrow> parse_lines st ls = Inr st' \<Longrightarrow> state_inv st'"
proof (induction ls arbitrary: st)
  case Nil then show ?case by simp
next
  case (Cons l ls)
  obtain st1 where s1: "parse_line st l = Inr st1" using parse_line_total by blast
  with Cons.prems have "state_inv st1" "parse_lines st1 ls = Inr st'" by (auto dest: parse_line_inv)
  then show ?case by (rule Cons.IH)
qed

lemma parse_topic_ideas_titled: "parse_topic_ideas raw = Inr ts \<Longrightarrow> list_all titled_topic ts"
proof -
  assume a: "parse_topic_ideas raw = Inr ts"
  obtain st where st: "parse_lines ([], None) (split_on CHR ''\<newline>'' raw) = Inr st"
    using parse_lines_total by blast
  have "state_inv ([], None)" by (simp add: state_inv_def)
  then have "state_inv st" using st by (rule parse_lines_inv)
  then have "list_all titled_topic (close_topic (fst st) (snd st))"
    using close_topic_inv[of "fst st" "snd st"] by simp
  with a st show ?thesis by (simp add: parse_topic_ideas_def)
qed


subsection \<open>Stripping\<close>

lemma rstrip_Cons: "rstrip (c # s) = (if rstrip s = [] \<and> is_space c then [] else c # rstrip s)"
  by (auto simp: rstrip_def dropWhile_append dropWhile_eq_Nil_conv)

lemma rstrip_Nil [simp]: "rstrip [] = []" by (simp add: rstrip_def)
lemma lstrip_Nil [simp]: "lstrip [] = []" by (simp add: lstrip_def)
lemma strip_Nil [simp]: "strip [] = []" by (simp add: strip_def)

lemma strip_commute: "rstrip (lstrip s) = lstrip (rstrip s)"
  by (induction s) (auto simp: rstrip_Cons lstrip_def)

lemma rstrip_idem: "rstrip (rstrip s) = rstrip s"
  by (induction s) (auto simp: rstrip_Cons)

lemma lstrip_idem: "lstrip (lstrip s) = lstrip s"
  by (simp add: lstrip_def dropWhile_idem)

lemma strip_rstrip: "strip (rstrip s) = strip s"
  by (simp add: strip_def strip_commute rstrip_idem)

lemma strip_lstrip: "strip (lstrip s) = strip s"
  by (simp add: strip_def lstrip_idem)

lemma strip_space_Cons: "is_space c \<Longrightarrow> strip (c # s) = strip s"
  by (simp add: strip_def lstrip_def)

lemma rstrip_append_keep: "rstrip s \<noteq> [] \<Longrightarrow> rstrip (a @ s) = a @ rstrip s"
  by (induction a) (auto simp: rstrip_Cons)

lemma rstrip_eq_Nil: "rstrip s = [] \<longleftrightarrow> (\<forall>c\<in>set s. is_space c)"
  by (auto simp: rstrip_def dropWhile_eq_Nil_conv)

lemma strip_eq_Nil: "strip s = [] \<longleftrightarrow> (\<forall>c\<in>set s. is_space c)"
  by (auto simp: strip_def rstrip_eq_Nil lstrip_def dropWhile_eq_Nil_conv dest: set_dropWhileD)
    (metis (full_types) dropWhile_eq_Nil_conv dropWhile_idem)

lemma digit_char_digit: "d < 10 \<Longrightarrow> is_digit (digit_char d)"
  by (auto simp: digit_char_def is_digit_def numeral_eq_Suc less_Suc_eq)

lemma str_nat_digits: "c \<in> set (str_nat n) \<Longrightarrow> is_digit c"
proof (induction n rule: str_nat.induct)
  case (1 n)
  then show ?case
    by (subst (asm) (2) str_nat.simps) (auto simp: digit_char_digit split: if_splits)
qed

lemma str_nat_nonempty: "str_nat n \<noteq> []"
  by (subst str_nat.simps) simp

subsection \<open>Title and field lines\<close>

lemma not_space_simps [simp]:
  "\<not> is_space CHR ''#''" "\<not> is_space CHR ''-''" "\<not> is_space CHR '':''" "\<not> is_space CHR ''.''"
  "is_space CHR '' ''" "is_space CHR ''\<newline>''"
  by (simp_all add: is_space_def)

lemma digit_not_space: "is_digit c \<Longrightarrow> \<not> is_space c"
  by (auto simp: is_digit_def is_space_def)

lemma digit_not_hash: "is_digit c \<Longrightarrow> c \<noteq> CHR ''#''"
  by (auto simp: is_digit_def)

lemma not_digit_simps [simp]: "\<not> is_digit CHR ''.''" "\<not> is_digit CHR ''-''" "\<not> is_digit CHR ''#''"
  by (simp_all add: is_digit_def)

lemma rstrip_last: "a \<noteq> [] \<Longrightarrow> \<not> is_space (last a) \<Longrightarrow> rstrip a = a"
  by (cases a rule: rev_cases) (simp_all add: rstrip_def)

lemma rstrip_append: "rstrip (a @ s) = (if rstrip s = [] then rstrip a else a @ rstrip s)"
  by (induction a) (auto simp: rstrip_Cons)

lemma strip_keep:
  assumes "a \<noteq> []" "\<not> is_space (hd a)" "\<not> is_space (last a)"
  shows "strip (a @ s) = a @ rstrip s"
proof -
  from assms obtain c a' where a: "a = c # a'" by (cases a) auto
  with assms have "lstrip (a @ s) = a @ s" by (simp add: lstrip_def)
  moreover have "rstrip (a @ s) = a @ rstrip s"
    using rstrip_last[OF assms(1,3)] by (simp add: rstrip_append)
  ultimately show ?thesis by (simp add: strip_def)
qed

lemma split_once_at:
  assumes "c \<notin> set p"
  shows "split_once c (p @ c # r) = [p, r]"
proof -
  have "dropWhile (\<lambda>x. x \<noteq> c) (p @ c # r) = c # r"
    using assms by (induction p) auto
  moreover have "takeWhile (\<lambda>x. x \<noteq> c) (p @ c # r) = p"
    using assms by (induction p) auto
  ultimately show ?thesis by (simp add: split_once_def)
qed

lemma takeWhile_replicate_eq:
  "y \<noteq> x \<Longrightarrow> takeWhile (\<lambda>c. c = x) (replicate h x @ y # ys) = replicate h x"
  by (induction h) simp_all

lemma dropWhile_replicate_eq:
  "y \<noteq> x \<Longrightarrow> dropWhile (\<lambda>c. c = x) (replicate h x @ y # ys) = y # ys"
  by (induction h) simp_all

lemma title_match_marked:
  assumes "\<forall>c\<in>set ds. is_digit c" "ds \<noteq> []" "h \<le> 2"
  shows "title_match (heading_mark h @ ds @ ''.'' @ r) =
           (if dropWhile is_space r \<noteq> [] then Some (dropWhile is_space r)
            else if r \<noteq> [] then Some [last r] else None)"
proof -
  obtain d ds' where ds: "ds = d # ds'" using assms(2) by (cases ds) auto
  have d: "is_digit d" using assms(1) ds by simp
  define sp where "sp = (if h = 0 then [] else '' '')"
  have hm: "heading_mark h = replicate h CHR ''#'' @ sp"
    by (simp add: heading_mark_def sp_def)
  obtain y ys where y: "sp @ ds @ CHR ''.'' # r = y # ys" "y \<noteq> CHR ''#''"
    using d ds by (cases "h = 0") (auto simp: sp_def digit_not_hash)
  have th: "takeWhile (\<lambda>c. c = CHR ''#'') (replicate h CHR ''#'' @ sp @ ds @ CHR ''.'' # r)
              = replicate h CHR ''#''"
    unfolding y(1) using y(2) by (rule takeWhile_replicate_eq)
  have dh: "dropWhile (\<lambda>c. c = CHR ''#'') (replicate h CHR ''#'' @ sp @ ds @ CHR ''.'' # r)
              = sp @ ds @ CHR ''.'' # r"
    unfolding y(1) using y(2) by (rule dropWhile_replicate_eq)
  have sp: "dropWhile is_space (sp @ ds @ CHR ''.'' # r) = ds @ CHR ''.'' # r"
    using d ds by (simp add: digit_not_space sp_def)
  have tw: "takeWhile is_digit (ds @ CHR ''.'' # r) = ds"
    using assms(1) by (simp add: takeWhile_append2)
  have dw: "dropWhile is_digit (ds @ CHR ''.'' # r) = CHR ''.'' # r"
    using assms(1) by (simp add: dropWhile_append2)
  show ?thesis
    unfolding hm using th dh sp tw dw assms(2,3) by (simp add: title_match_def Let_def)
qed

lemma heading_mark_2: "heading_mark 2 = ''## ''"
  by (simp add: heading_mark_def numeral_2_eq_2)

lemma title_match_numbered:
  assumes "\<forall>c\<in>set ds. is_digit c" "ds \<noteq> []"
  shows "title_match (''## '' @ ds @ ''.'' @ r) =
           (if dropWhile is_space r \<noteq> [] then Some (dropWhile is_space r)
            else if r \<noteq> [] then Some [last r] else None)"
  using title_match_marked[OF assms, of 2 r] by (simp add: heading_mark_2)

lemma title_match_star: "title_match (CHR ''*'' # s) = None"
  by (simp add: title_match_def Let_def is_digit_def is_space_def)

lemma title_match_dash: "title_match (CHR ''-'' # s) = None"
  by (simp add: title_match_def Let_def)

lemma title_match_Nil: "title_match [] = None"
  by (simp add: title_match_def Let_def)

lemma lstrip_heading: "lstrip (heading_mark h @ str_nat n @ s) = heading_mark h @ str_nat n @ s"
proof (cases "h = 0")
  case True
  obtain d ds where "str_nat n = d # ds" using str_nat_nonempty[of n] by (cases "str_nat n") auto
  moreover from this have "is_digit d" using str_nat_digits[of d n] by simp
  ultimately show ?thesis using True by (simp add: lstrip_def heading_mark_def digit_not_space)
next
  case False
  then obtain k where "h = Suc k" by (cases h) auto
  then show ?thesis by (simp add: lstrip_def heading_mark_def)
qed

lemma heading_marked_match:
  assumes "strip t \<noteq> []" "h \<le> 2"
  shows "\<exists>g. title_match (strip (heading_mark h @ str_nat n @ ''. '' @ t)) = Some g \<and> strip g = strip t"
proof -
  have rs: "rstrip t \<noteq> []" using assms(1) by (auto simp: strip_eq_Nil rstrip_eq_Nil)
  have "strip (heading_mark h @ str_nat n @ ''. '' @ t) = heading_mark h @ str_nat n @ ''. '' @ rstrip t"
    using rstrip_append_keep[OF rs, of "heading_mark h @ str_nat n @ ''. ''"]
      lstrip_heading[of h n "''. '' @ t"]
    by (simp add: strip_def)
  moreover have "lstrip (rstrip t) \<noteq> []"
    using assms(1) by (simp add: strip_def strip_commute)
  ultimately show ?thesis
    using title_match_marked[of "str_nat n" h "'' '' @ rstrip t"] str_nat_digits str_nat_nonempty assms(2)
    by (simp add: lstrip_def[symmetric] strip_lstrip strip_rstrip)
qed

lemma heading_line_match:
  assumes "strip t \<noteq> []"
  shows "\<exists>g. title_match (strip (''## '' @ str_nat n @ ''. '' @ t)) = Some g \<and> strip g = strip t"
  using heading_marked_match[OF assms, of 2 n] by (simp add: heading_mark_2)

lemma parse_line_heading:
  assumes "strip (title_text b) \<noteq> []" "heading_marks b \<le> 2"
  shows "parse_line (ts, cur) (heading_line b) =
           Inr (close_topic ts cur, Some (new_topic (strip (title_text b))))"
  using heading_marked_match[OF assms, of "heading_no b"]
  by (auto simp: parse_line_def heading_line_def Let_def)

lemma parse_line_blank: "parse_line st [] = Inr st"
  by (simp add: parse_line_def title_match_Nil has_label_def Let_def split: option.splits)

lemma field_strip:
  "strip (bullet d @ ''**'' @ label @ ''**: '' @ v) = bullet d @ ''**'' @ label @ ''**:'' @ rstrip ('' '' @ v)"
  using strip_keep[of "bullet d @ ''**'' @ label @ ''**:''" "'' '' @ v"]
  by (cases d) (simp_all add: bullet_def is_space_def)

lemma field_value_label:
  assumes "CHR '':'' \<notin> set label"
  shows "field_value (bullet d @ ''**'' @ label @ ''**:'' @ rstrip ('' '' @ v)) = Inr (strip v)"
proof -
  let ?p = "bullet d @ ''**'' @ label @ ''**''"
  let ?r = "rstrip ('' '' @ v)"
  have "CHR '':'' \<notin> set ?p" using assms by (simp add: bullet_def)
  then have "split_once CHR '':'' (?p @ CHR '':'' # ?r) = [?p, ?r]"
    by (rule split_once_at)
  moreover have "strip ?r = strip v"
    by (simp add: strip_rstrip strip_space_Cons)
  ultimately show ?thesis by (simp add: field_value_def)
qed

subsection \<open>Parsing text in the requested format\<close>

lemma parse_line_angle:
  assumes "d \<noteq> []"
  shows "parse_line (ts, Some d) (bullet b @ ''**Angle**: '' @ v) =
           Inr (ts, Some (AList.update ''angle'' (Str (strip v)) d))"
  using assms field_strip[of b "''Angle''" v] field_value_label[of "''Angle''" b v]
  by (cases b) (simp_all add: parse_line_def title_match_dash title_match_star has_label_def Let_def bullet_def)

lemma parse_line_keywords:
  assumes "d \<noteq> []"
  shows "parse_line (ts, Some d) (bullet b @ ''**Keywords**: '' @ v) =
           Inr (ts, Some (AList.update ''keywords'' (StrList (map strip (split_on CHR '','' (strip v)))) d))"
  using assms field_strip[of b "''Keywords''" v] field_value_label[of "''Keywords''" b v]
  by (cases b) (simp_all add: parse_line_def title_match_dash title_match_star has_label_def Let_def bullet_def)

lemma parse_line_rationale:
  assumes "d \<noteq> []"
  shows "parse_line (ts, Some d) (bullet b @ ''**Rationale**: '' @ v) =
           Inr (ts, Some (AList.update ''rationale'' (Str (strip v)) d))"
  using assms field_strip[of b "''Rationale''" v] field_value_label[of "''Rationale''" b v]
  by (cases b) (simp_all add: parse_line_def title_match_dash title_match_star has_label_def Let_def bullet_def)

lemma parse_line_content_type:
  assumes "d \<noteq> []"
  shows "parse_line (ts, Some d) (bullet b @ ''**Content Type**: '' @ v) =
           Inr (ts, Some (AList.update ''content_type'' (Str (strip v)) d))"
  using assms field_strip[of b "''Content Type''" v] field_value_label[of "''Content Type''" b v]
  by (cases b) (simp_all add: parse_line_def title_match_dash title_match_star has_label_def Let_def bullet_def)

lemma parse_lines_blanks: "parse_lines st (replicate n [] @ rest) = parse_lines st rest"
  by (induction n) (simp_all add: parse_line_blank)

lemma update_nonempty: "AList.update k v d \<noteq> []"
  by (cases d) auto

lemma parse_lines_angle:
  assumes "d \<noteq> []"
  shows "parse_lines (ts, Some d) (field_line b ''Angle'' a @ rest) =
    parse_lines (ts, Some (case a of None \<Rightarrow> d | Some v \<Rightarrow> AList.update ''angle'' (Str (strip v)) d)) rest"
proof (cases a)
  case None then show ?thesis by simp
next
  case (Some v) then show ?thesis using parse_line_angle[OF assms, of ts b v] by simp
qed

lemma parse_lines_keywords:
  assumes "d \<noteq> []"
  shows "parse_lines (ts, Some d) (field_line b ''Keywords'' a @ rest) =
    parse_lines (ts, Some (case a of None \<Rightarrow> d
       | Some v \<Rightarrow> AList.update ''keywords'' (StrList (map strip (split_on CHR '','' (strip v)))) d)) rest"
proof (cases a)
  case None then show ?thesis by simp
next
  case (Some v) then show ?thesis using parse_line_keywords[OF assms, of ts b v] by simp
qed

lemma parse_lines_rationale:
  assumes "d \<noteq> []"
  shows "parse_lines (ts, Some d) (field_line b ''Rationale'' a @ rest) =
    parse_lines (ts, Some (case a of None \<Rightarrow> d | Some v \<Rightarrow> AList.update ''rationale'' (Str (strip v)) d)) rest"
proof (cases a)
  case None then show ?thesis by simp
next
  case (Some v) then show ?thesis using parse_line_rationale[OF assms, of ts b v] by simp
qed

lemma parse_lines_content_type:
  assumes "d \<noteq> []"
  shows "parse_lines (ts, Some d) (field_line b ''Content Type'' a @ rest) =
    parse_lines (ts, Some (case a of None \<Rightarrow> d | Some v \<Rightarrow> AList.update ''content_type'' (Str (strip v)) d)) rest"
proof (cases a)
  case None then show ?thesis by simp
next
  case (Some v) then show ?thesis using parse_line_content_type[OF assms, of ts b v] by simp
qed

lemma parse_lines_fields:
  "parse_lines (ts, Some (new_topic t))
     (field_line b ''Angle'' a @ field_line b ''Keywords'' k @ field_line b ''Rationale'' r
        @ field_line b ''Content Type'' c @ rest) =
   parse_lines (ts, Some [(''title'', Str t), (''angle'', Str (text_or_empty a)),
      (''keywords'', StrList (keywords_or_empty k)), (''rationale'', Str (text_or_empty r)),
      (''content_type'', Str (text_or_empty c))]) rest"
proof -
  define d1 where "d1 = (case a of None \<Rightarrow> new_topic t
                         | Some v \<Rightarrow> AList.update ''angle'' (Str (strip v)) (new_topic t))"
  define d2 where "d2 = (case k of None \<Rightarrow> d1
     | Some v \<Rightarrow> AList.update ''keywords'' (StrList (map strip (split_on CHR '','' (strip v)))) d1)"
  define d3 where "d3 = (case r of None \<Rightarrow> d2
                         | Some v \<Rightarrow> AList.update ''rationale'' (Str (strip v)) d2)"
  define d4 where "d4 = (case c of None \<Rightarrow> d3
                         | Some v \<Rightarrow> AList.update ''content_type'' (Str (strip v)) d3)"
  have n0: "new_topic t \<noteq> []" by (simp add: new_topic_def)
  have n1: "d1 \<noteq> []" unfolding d1_def using n0 by (cases a) (simp_all add: update_nonempty)
  have n2: "d2 \<noteq> []" unfolding d2_def using n1 by (cases k) (simp_all add: update_nonempty)
  have n3: "d3 \<noteq> []" unfolding d3_def using n2 by (cases r) (simp_all add: update_nonempty)
  have e1: "d1 = [(''title'', Str t), (''angle'', Str (text_or_empty a)),
      (''keywords'', StrList []), (''rationale'', Str []), (''content_type'', Str [])]"
    unfolding d1_def by (cases a) (simp_all add: new_topic_def)
  have e2: "d2 = [(''title'', Str t), (''angle'', Str (text_or_empty a)),
      (''keywords'', StrList (keywords_or_empty k)), (''rationale'', Str []), (''content_type'', Str [])]"
    unfolding d2_def e1 by (cases k) simp_all
  have e3: "d3 = [(''title'', Str t), (''angle'', Str (text_or_empty a)),
      (''keywords'', StrList (keywords_or_empty k)), (''rationale'', Str (text_or_empty r)),
      (''content_type'', Str [])]"
    unfolding d3_def e2 by (cases r) simp_all
  have e4: "d4 = [(''title'', Str t), (''angle'', Str (text_or_empty a)),
      (''keywords'', StrList (keywords_or_empty k)), (''rationale'', Str (text_or_empty r)),
      (''content_type'', Str (text_or_empty c))]"
    unfolding d4_def e3 by (cases c) simp_all
  have "parse_lines (ts, Some (new_topic t))
     (field_line b ''Angle'' a @ field_line b ''Keywords'' k @ field_line b ''Rationale'' r
        @ field_line b ''Content Type'' c @ rest) =
     parse_lines (ts, Some d1) (field_line b ''Keywords'' k @ field_line b ''Rationale'' r
        @ field_line b ''Content Type'' c @ rest)"
    unfolding d1_def by (rule parse_lines_angle[OF n0])
  also have "\<dots> = parse_lines (ts, Some d2) (field_line b ''Rationale'' r
        @ field_line b ''Content Type'' c @ rest)"
    unfolding d2_def by (rule parse_lines_keywords[OF n1])
  also have "\<dots> = parse_lines (ts, Some d3) (field_line b ''Content Type'' c @ rest)"
    unfolding d3_def by (rule parse_lines_rationale[OF n2])
  also have "\<dots> = parse_lines (ts, Some d4) rest"
    unfolding d4_def by (rule parse_lines_content_type[OF n3])
  finally show ?thesis unfolding e4 .
qed

lemma parse_lines_block:
  assumes "strip (title_text b) \<noteq> []" "heading_marks b \<le> 2"
  shows "parse_lines (ts, cur) (block_lines b @ rest) =
           parse_lines (close_topic ts cur, Some (expected_topic b)) rest"
  using parse_line_heading[OF assms, of ts cur]
  by (simp add: block_lines_def parse_lines_fields parse_lines_blanks expected_topic_def
        del: field_line.simps)

lemma close_expected:
  assumes "strip (title_text b) \<noteq> []"
  shows "close_topic ts (Some (expected_topic b)) = ts @ [expected_topic b]"
  using assms by (simp add: close_topic_def expected_topic_def)

lemma parse_lines_blocks:
  assumes "\<forall>b\<in>set bs. wf_block b"
  shows "\<exists>st. parse_lines (ts, cur) (concat (map block_lines bs)) = Inr st \<and>
           close_topic (fst st) (snd st) = close_topic ts cur @ map expected_topic bs"
  using assms
proof (induction bs arbitrary: ts cur)
  case Nil
  show ?case by simp
next
  case (Cons b bs)
  then have t: "strip (title_text b) \<noteq> []" "heading_marks b \<le> 2" by (simp_all add: wf_block_def)
  from Cons obtain st where
    "parse_lines (close_topic ts cur, Some (expected_topic b)) (concat (map block_lines bs)) = Inr st"
    "close_topic (fst st) (snd st) =
       close_topic (close_topic ts cur) (Some (expected_topic b)) @ map expected_topic bs"
    by fastforce
  then show ?case
    by (simp add: parse_lines_block[OF t] close_expected[OF t(1)])
qed

lemma split_acc_line:
  "c \<notin> set l \<Longrightarrow> split_acc c cur (l @ rest) = split_acc c (cur @ l) rest"
  by (induction l arbitrary: cur) auto

lemma split_on_join:
  assumes "ls \<noteq> []" "\<forall>l\<in>set ls. c \<notin> set l"
  shows "split_on c (join [c] ls) = ls"
proof -
  have "split_acc c cur (join [c] ls) = (cur @ hd ls) # tl ls" for cur
    using assms
  proof (induction "[c]" ls arbitrary: cur rule: join.induct)
    case 1 then show ?case by simp
  next
    case (2 x)
    then show ?case using split_acc_line[of c x cur "[]"] by simp
  next
    case (3 x y ys)
    then show ?case using split_acc_line[of c x cur "c # join [c] (y # ys)"] by simp
  qed
  from this[of "[]"] assms(1) show ?thesis by (simp add: split_on_def)
qed

lemma str_nat_one_line: "one_line (str_nat n)"
  using str_nat_digits[of "CHR ''\<newline>''" n] by (auto simp: one_line_def is_digit_def)

lemma field_line_one_line:
  "one_line_opt v \<Longrightarrow> one_line label \<Longrightarrow> l \<in> set (field_line d label v) \<Longrightarrow> one_line l"
  by (cases v) (auto simp: one_line_def bullet_def)

lemma block_lines_one_line:
  assumes "wf_block b" "l \<in> set (block_lines b)"
  shows "one_line l"
proof -
  have "one_line (heading_line b)"
    using assms(1) str_nat_one_line[of "heading_no b"]
    by (auto simp: heading_line_def heading_mark_def one_line_def wf_block_def)
  moreover have "one_line []" by (simp add: one_line_def)
  moreover have "one_line ''Angle''" "one_line ''Keywords''" "one_line ''Rationale''" "one_line ''Content Type''"
    by (simp_all add: one_line_def)
  ultimately show ?thesis
    using assms by (auto simp: block_lines_def wf_block_def dest: field_line_one_line)
qed

lemma parse_convention:
  assumes "\<forall>b\<in>set bs. wf_block b"
  shows "parse_topic_ideas (convention_text bs) = Inr (map expected_topic bs)"
proof (cases bs)
  case Nil
  then show ?thesis
    by (simp add: convention_text_def parse_topic_ideas_def split_on_def parse_line_blank close_topic_def)
next
  case (Cons b bs')
  let ?ls = "concat (map block_lines bs)"
  have ne: "?ls \<noteq> []" using Cons by (simp add: block_lines_def)
  have "\<forall>l\<in>set ?ls. CHR ''\<newline>'' \<notin> set l"
    using assms block_lines_one_line by (auto simp: one_line_def)
  with ne have "split_on CHR ''\<newline>'' (convention_text bs) = ?ls"
    unfolding convention_text_def by (rule split_on_join)
  moreover obtain st where "parse_lines ([], None) ?ls = Inr st"
    "close_topic (fst st) (snd st) = close_topic [] None @ map expected_topic bs"
    using parse_lines_blocks[OF assms] by blast
  ultimately show ?thesis
    by (simp add: parse_topic_ideas_def close_topic_def)
qed

subsection \<open>Substrings of a concatenation\<close>

lemma str_contains_Nil [simp]: "str_contains s []"
  by (cases s) simp_all

lemma str_contains_iff: "str_contains s N \<longleftrightarrow> (\<exists>a b. s = a @ N @ b)"
proof (induction s)
  case Nil show ?case by auto
next
  case (Cons c cs)
  show ?case
  proof
    assume "str_contains (c # cs) N"
    then consider "prefix N (c # cs)" | "str_contains cs N" by auto
    then show "\<exists>a b. c # cs = a @ N @ b"
    proof cases
      case 1 then obtain b where "c # cs = N @ b" by (auto simp: prefix_def)
      then have "c # cs = [] @ N @ b" by simp
      then show ?thesis by blast
    next
      case 2 with Cons obtain a b where "cs = a @ N @ b" by blast
      then have "c # cs = (c # a) @ N @ b" by simp
      then show ?thesis by blast
    qed
  next
    assume "\<exists>a b. c # cs = a @ N @ b"
    then obtain a b where ab: "c # cs = a @ N @ b" by blast
    show "str_contains (c # cs) N"
    proof (cases a)
      case Nil
      with ab have "prefix N (c # cs)" by (simp add: prefix_def)
      then show ?thesis by simp
    next
      case (Cons x a') with ab have "cs = a' @ N @ b" by simp
      with Cons.IH show ?thesis by auto
    qed
  qed
qed

lemma str_contains_middle: "str_contains (a @ s @ b) s"
  by (auto simp: str_contains_iff)

lemma overlapsI:
  "A \<noteq> [] \<Longrightarrow> us \<noteq> [] \<Longrightarrow> prefix us X \<Longrightarrow> overlaps (A @ us) X"
proof (induction A)
  case Nil then show ?case by simp
next
  case (Cons a A)
  show ?case
  proof (cases "A = []")
    case True with Cons.prems show ?thesis by simp
  next
    case False with Cons show ?thesis by simp
  qed
qed

lemma str_contains_append:
  assumes "\<not> overlaps N X"
  shows "str_contains (U @ X) N \<longleftrightarrow> str_contains U N \<or> str_contains X N"
proof (induction U)
  case Nil
  show ?case by (cases "N = []") auto
next
  case (Cons u U)
  have "prefix N (u # U @ X) \<longleftrightarrow> prefix N (u # U)"
  proof
    assume "prefix N (u # U @ X)"
    then have "prefix N ((u # U) @ X)" by simp
    then consider "prefix N (u # U)" | us where "N = (u # U) @ us" "prefix us X"
      unfolding prefix_append by blast
    then show "prefix N (u # U)"
    proof cases
      case 1 then show ?thesis .
    next
      case 2
      show ?thesis
      proof (cases "us = []")
        case True with 2 show ?thesis by simp
      next
        case False
        with 2 overlapsI[of "u # U" us X] assms show ?thesis by simp
      qed
    qed
  next
    assume "prefix N (u # U)"
    then have "prefix N ((u # U) @ X)" by (rule prefix_prefix) 
    then show "prefix N (u # U @ X)" by simp
  qed
  with Cons show ?case by auto
qed

lemma str_contains_hd: "str_contains s N \<Longrightarrow> N \<noteq> [] \<Longrightarrow> hd N \<in> set s"
  by (auto simp: str_contains_iff)

lemma str_int_chars: "c \<in> set (str_int i) \<Longrightarrow> is_digit c \<or> c = CHR ''-''"
  by (auto simp: str_int_def dest: str_nat_digits split: if_splits)

subsection \<open>Section headings in the prompt\<close>

lemma str_int_no_heading:
  assumes "N \<noteq> []" "\<not> is_digit (hd N)" "hd N \<noteq> CHR ''-''"
  shows "\<not> str_contains (str_int i) N"
  using assms str_contains_hd[of "str_int i" N] str_int_chars[of "hd N" i] by blast

lemma heading_cases:
  assumes "h \<in> {keyword_heading, product_heading, duplication_heading}"
  obtains "h = ''TARGET KEYWORDS TO INCORPORATE:''"
        | "h = ''PRODUCT/SERVICE TO PROMOTE:''"
        | "h = ''EXISTING BLOG POSTS TO AVOID DUPLICATING:''"
  using assms by (auto simp: keyword_heading_def product_heading_def duplication_heading_def)

lemma prompt_heading_iff:
  assumes h: "h \<in> {keyword_heading, product_heading, duplication_heading}"
  shows "str_contains (build_prompt ref pref None None None n) h \<longleftrightarrow>
         str_contains ref h \<or> str_contains pref h"
proof -
  define sn where "sn = str_int n"
  define P where "P = (if pref \<noteq> [] then pref else ''No specific preferences'')"
  define T1 where "T1 = sn @ '' topics now. Be concise but specific.\<newline>''"
  define T2 where "T2 = '' specific, actionable topic ideas that match their content style\<newline>'' @
         ''3. Focus on topics they HAVEN'T covered yet - avoid duplicating the existing topics list above\<newline>'' @
         ''4. If target keywords were provided, prioritize topics that incorporate those high-value keywords\<newline>'' @
         ''5. If a product target was provided, create topics that naturally allow mentioning/promoting the product while providing genuine value\<newline>'' @
         ''\<newline>'' @
         ''For EACH topic, use this EXACT format:\<newline>'' @
         ''## 1. Compelling Title Here\<newline>'' @
         ''- **Angle**: One sentence unique perspective\<newline>'' @
         ''- **Keywords**: keyword1, keyword2, keyword3\<newline>'' @
         ''- **Rationale**: One sentence why this works\<newline>'' @
         ''- **Content Type**: Guide/Tutorial/Listicle/Case Study\<newline>'' @
         ''\<newline>'' @
         ''Generate all '' @ T1"
  define T3 where "T3 = sn @ T2"
  define T4 where "T4 = '' for 3-5 recent articles to understand their style\<newline>'' @
         ''2. Generate '' @ T3"
  define T5 where "T5 = ref @ T4"
  define T6 where "T6 = ''\<newline>'' @ ''\<newline>'' @ ''\<newline>'' @ ''\<newline>'' @ ''\<newline>'' @
         ''Instructions:\<newline>'' @ ''1. Quickly search '' @ T5"
  define T7 where "T7 = P @ T6"
  define T8 where "T8 = ''\<newline>'' @ ''\<newline>'' @ ''Additional preferences:\<newline>'' @ T7"
  define T9 where "T9 = ref @ T8"
  define T10 where "T10 = '' topic ideas for the blog: '' @ T9"
  define T11 where "T11 = sn @ T10"
  have prompt: "build_prompt ref pref None None None n = ''\<newline>'' @ ''Generate '' @ T11"
    by (simp add: build_prompt_def build_keyword_context_def build_product_context_def
          build_duplication_context_def sn_def P_def T1_def T2_def T3_def T4_def T5_def T6_def
          T7_def T8_def T9_def T10_def T11_def)
  have sn: "\<not> str_contains sn h"
    unfolding sn_def using h
    by (rule heading_cases) (rule str_int_no_heading; simp add: is_digit_def)+
  have pn: "str_contains P h \<longleftrightarrow> str_contains pref h"
    unfolding P_def using h by (rule heading_cases) auto
  have o1: "\<not> overlaps h '' topics now. Be concise but specific.\<newline>''"
    using h by (rule heading_cases) simp_all
  have c1: "\<not> str_contains '' topics now. Be concise but specific.\<newline>'' h"
    using h by (rule heading_cases) simp_all
  have 1: "\<not> str_contains T1 h"
    unfolding T1_def using sn c1 by (simp only: str_contains_append[OF o1] simp_thms)
  have 2: "\<not> str_contains T2 h"
    unfolding T2_def using h by (rule heading_cases) (insert 1, simp_all)
  have o3: "\<not> overlaps h T2"
    unfolding T2_def using h by (rule heading_cases) simp_all
  have 3: "\<not> str_contains T3 h"
    unfolding T3_def using sn 2 by (simp only: str_contains_append[OF o3] simp_thms)
  have 4: "\<not> str_contains T4 h"
    unfolding T4_def using h by (rule heading_cases) (insert 3, simp_all)
  have o5: "\<not> overlaps h T4"
    unfolding T4_def using h by (rule heading_cases) simp_all
  have 5: "str_contains T5 h \<longleftrightarrow> str_contains ref h"
    unfolding T5_def using 4 by (simp only: str_contains_append[OF o5] simp_thms)
  have 6: "str_contains T6 h \<longleftrightarrow> str_contains ref h"
    unfolding T6_def using h by (rule heading_cases) (insert 5, simp_all)
  have o7: "\<not> overlaps h T6"
    unfolding T6_def using h by (rule heading_cases) simp_all
  have 7: "str_contains T7 h \<longleftrightarrow> str_contains pref h \<or> str_contains ref h"
    unfolding T7_def using 6 pn by (simp only: str_contains_append[OF o7])
  have 8: "str_contains T8 h \<longleftrightarrow> str_contains pref h \<or> str_contains ref h"
    unfolding T8_def using h by (rule heading_cases) (insert 7, simp_all)
  have o9: "\<not> overlaps h T8"
    unfolding T8_def using h by (rule heading_cases) simp_all
  have 9: "str_contains T9 h \<longleftrightarrow> str_contains pref h \<or> str_contains ref h"
    unfolding T9_def using 8 by (auto simp only: str_contains_append[OF o9])
  have 10: "str_contains T10 h \<longleftrightarrow> str_contains pref h \<or> str_contains ref h"
    unfolding T10_def using h by (rule heading_cases) (insert 9, simp_all)
  have o11: "\<not> overlaps h T10"
    unfolding T10_def using h by (rule heading_cases) simp_all
  have 11: "str_contains T11 h \<longleftrightarrow> str_contains pref h \<or> str_contains ref h"
    unfolding T11_def using sn 10 by (simp only: str_contains_append[OF o11] simp_thms)
  have "str_contains (''\<newline>'' @ ''Generate '' @ T11) h \<longleftrightarrow> str_contains pref h \<or> str_contains ref h"
    using h by (rule heading_cases) (insert 11, simp_all)
  then show ?thesis unfolding prompt by blast
qed

subsection \<open>Claims about the parser, the prompt and the mocked pipeline\<close>

lemma strip_trailing_spaces:
  assumes "a \<noteq> []" "\<not> is_space (hd a)" "\<not> is_space (last a)"
  shows "strip (a @ replicate k CHR '' '') = a"
proof -
  have "rstrip (replicate k CHR '' '') = []" by (simp add: rstrip_eq_Nil)
  with strip_keep[OF assms, of "replicate k CHR '' ''"] show ?thesis by simp
qed

lemma parse_line_untitled_heading:
  "parse_line st (''## '' @ str_nat n @ ''.'' @ replicate k CHR '' '') = Inr st"
proof -
  let ?a = "''## '' @ str_nat n @ ''.''"
  have "strip (?a @ replicate k CHR '' '') = ?a"
    by (rule strip_trailing_spaces) simp_all
  then have s: "strip (''## '' @ str_nat n @ ''.'' @ replicate k CHR '' '') = ?a" by simp
  have m: "title_match ?a = None"
    using title_match_numbered[of "str_nat n" "[]"] str_nat_digits str_nat_nonempty by simp
  have l: "\<not> has_label lab ?a" for lab by (simp add: has_label_def)
  show ?thesis
    unfolding parse_line_def s Let_def using m l
    by (simp split: option.splits)
qed

text \<open>
  C10: every record the parser returns has exactly the keys \<open>title\<close>, \<open>angle\<close>, \<open>keywords\<close>,
  \<open>rationale\<close>, \<open>content_type\<close> (in this order) and a non-empty title; a numbered heading line
  with no title text leaves the parser state as it was, so it opens no record.
\<close>

theorem parse_topic_ideas_records:
  "(parse_topic_ideas raw_output = Inr ts \<longrightarrow>
      (\<forall>d\<in>set ts. map fst d = [''title'', ''angle'', ''keywords'', ''rationale'', ''content_type'']
                   \<and> (\<exists>t. map_of d ''title'' = Some (Str t) \<and> t \<noteq> [])))
   \<and> parse_line st (''## '' @ str_nat n @ ''.'' @ replicate k CHR '' '') = Inr st"
proof -
  have "list_all titled_topic ts" if "parse_topic_ideas raw_output = Inr ts"
    using that by (rule parse_topic_ideas_titled)
  then have "\<forall>d\<in>set ts. map fst d = [''title'', ''angle'', ''keywords'', ''rationale'', ''content_type'']
                   \<and> (\<exists>t. map_of d ''title'' = Some (Str t) \<and> t \<noteq> [])"
    if "parse_topic_ideas raw_output = Inr ts"
    using that unfolding list_all_iff titled_topic_def topic_keys_def by blast
  moreover have "parse_line st (''## '' @ str_nat n @ ''.'' @ replicate k CHR '' '') = Inr st"
    by (rule parse_line_untitled_heading)
  ultimately show ?thesis by blast
qed

text \<open>C10 at a concrete output: the second heading has no title and yields no record.\<close>

theorem parse_topic_ideas_records_witness:
  "parse_topic_ideas ''## 1. Remote Work\<newline>- **Angle**: The office is optional\<newline>## 2.\<newline>'' =
     Inr [[(''title'', Str ''Remote Work''), (''angle'', Str ''The office is optional''),
           (''keywords'', StrList []), (''rationale'', Str []), (''content_type'', Str [])]]
   \<and> map fst [(''title'', Str ''Remote Work''), (''angle'', Str ''The office is optional''),
           (''keywords'', StrList []), (''rationale'', Str []), (''content_type'', Str [])]
       = [''title'', ''angle'', ''keywords'', ''rationale'', ''content_type'']
   \<and> (\<exists>t. map_of [(''title'', Str ''Remote Work''), (''angle'', Str ''The office is optional''),
           (''keywords'', StrList []), (''rationale'', Str []), (''content_type'', Str [])] ''title''
         = Some (Str t) \<and> t \<noteq> [])
   \<and> parse_line ([], None) (''## '' @ str_nat 2 @ ''.'' @ replicate 0 CHR '' '') = Inr ([], None)"
proof -
  have e: "parse_topic_ideas ''## 1. Remote Work\<newline>- **Angle**: The office is optional\<newline>## 2.\<newline>'' =
     Inr [[(''title'', Str ''Remote Work''), (''angle'', Str ''The office is optional''),
           (''keywords'', StrList []), (''rationale'', Str []), (''content_type'', Str [])]]"
    by code_simp
  from parse_topic_ideas_records[of
      "''## 1. Remote Work\<newline>- **Angle**: The office is optional\<newline>## 2.\<newline>''"
      "[[(''title'', Str ''Remote Work''), (''angle'', Str ''The office is optional''),
           (''keywords'', StrList []), (''rationale'', Str []), (''content_type'', Str [])]]"
      "([], None)" 2 0] e
  show ?thesis by simp
qed

text \<open>
  C2: for every output in the format the prompt asks for (numbered headings, each followed by any
  of the four bold-labelled lines and by blank lines; with or without the heading marks and the
  dashes), the parser returns one record per heading, in order, each labelled field taken from
  its line and each missing one left at its empty default; and on every input string the parser
  returns a list without raising.
\<close>

theorem parse_topic_ideas_convention:
  "((\<forall>b\<in>set bs. wf_block b) \<longrightarrow>
       parse_topic_ideas (convention_text bs) = Inr (map expected_topic bs))
   \<and> (\<exists>ts. parse_topic_ideas raw_output = Inr ts)"
proof -
  obtain st where "parse_lines ([], None) (split_on CHR ''\<newline>'' raw_output) = Inr st"
    using parse_lines_total by blast
  then have "\<exists>ts. parse_topic_ideas raw_output = Inr ts"
    by (simp add: parse_topic_ideas_def)
  then show ?thesis using parse_convention by blast
qed

text \<open>C2 at two concrete blocks, with the text they render to and the records parsed from it.\<close>

theorem parse_topic_ideas_convention_witness:
  "list_all wf_block sample_blocks \<and>
   convention_text sample_blocks =
     ''## 1. Remote Work Myths\<newline>- **Angle**: What the data says\<newline>- **Keywords**: remote work, productivity\<newline>- **Content Type**: Guide\<newline>\<newline>2. Async by Default\<newline>**Rationale**: Readers ask for it'' \<and>
   parse_topic_ideas (convention_text sample_blocks) =
     Inr [[(''title'', Str ''Remote Work Myths''), (''angle'', Str ''What the data says''),
           (''keywords'', StrList [''remote work'', ''productivity'']), (''rationale'', Str []),
           (''content_type'', Str ''Guide'')],
          [(''title'', Str ''Async by Default''), (''angle'', Str []), (''keywords'', StrList []),
           (''rationale'', Str ''Readers ask for it''), (''content_type'', Str [])]] \<and>
   (\<exists>ts. parse_topic_ideas ''no headings here'' = Inr ts)"
proof -
  have w: "list_all wf_block sample_blocks" by code_simp
  have t: "convention_text sample_blocks =
     ''## 1. Remote Work Myths\<newline>- **Angle**: What the data says\<newline>- **Keywords**: remote work, productivity\<newline>- **Content Type**: Guide\<newline>\<newline>2. Async by Default\<newline>**Rationale**: Readers ask for it''"
    by code_simp
  have x: "map expected_topic sample_blocks =
     [[(''title'', Str ''Remote Work Myths''), (''angle'', Str ''What the data says''),
           (''keywords'', StrList [''remote work'', ''productivity'']), (''rationale'', Str []),
           (''content_type'', Str ''Guide'')],
          [(''title'', Str ''Async by Default''), (''angle'', Str []), (''keywords'', StrList []),
           (''rationale'', Str ''Readers ask for it''), (''content_type'', Str [])]]"
    by code_simp
  from parse_topic_ideas_convention[of sample_blocks "''no headings here''"] w
  show ?thesis unfolding x[symmetric] using t by (simp add: list_all_iff)
qed

text \<open>
  C8: with the model mocked to return one fixed two-paragraph string, \<open>create_blog_post\<close> on topic
  "Remote Work" and reference "ExampleBlog.com" returns the style, research, draft and final fields,
  each equal to the (non-empty) mocked string, and no error field.
\<close>

theorem create_blog_post_mocked:
  "fst (create_blog_post (mock_runner (p1 @ ''\<newline>\<newline>'' @ p2)) ''Remote Work'' ''ExampleBlog.com'' requirements) =
     [(''style_guide'', p1 @ ''\<newline>\<newline>'' @ p2), (''research'', p1 @ ''\<newline>\<newline>'' @ p2),
      (''draft'', p1 @ ''\<newline>\<newline>'' @ p2), (''final'', p1 @ ''\<newline>\<newline>'' @ p2)]
   \<and> p1 @ ''\<newline>\<newline>'' @ p2 \<noteq> []
   \<and> map_of (fst (create_blog_post (mock_runner (p1 @ ''\<newline>\<newline>'' @ p2)) ''Remote Work'' ''ExampleBlog.com'' requirements)) ''error'' = None"
  by (simp add: create_blog_post_def analyze_blog_style_def run_agent_safely_def mock_runner_def)

text \<open>
  C6: when the keyword list, the product target and the existing-topics list are each empty or
  absent, the three optional sections render as the empty string, and a section heading occurs in
  the prompt only where the caller's own reference or preference text contains it.
\<close>

theorem empty_inputs_elide_sections:
  assumes "target_keywords \<in> {None, Some []}"
    and "product_target \<in> {None, Some []}"
    and "existing_topics \<in> {None, Some []}"
  shows "build_keyword_context target_keywords = [] \<and>
         build_product_context product_target = [] \<and>
         build_duplication_context existing_topics = [] \<and>
         (\<forall>h\<in>{keyword_heading, product_heading, duplication_heading}.
            str_contains (build_prompt reference_blog preferences target_keywords product_target
                            existing_topics num_topics) h
            \<longleftrightarrow> str_contains reference_blog h \<or> str_contains preferences h)"
proof -
  have k: "build_keyword_context target_keywords = []"
    using assms(1) by (auto simp: build_keyword_context_def)
  have p: "build_product_context product_target = []"
    using assms(2) by (auto simp: build_product_context_def)
  have d: "build_duplication_context existing_topics = []"
    using assms(3) by (auto simp: build_duplication_context_def)
  have "build_prompt reference_blog preferences target_keywords product_target existing_topics num_topics
        = build_prompt reference_blog preferences None None None num_topics"
    unfolding build_prompt_def k p d
    by (simp add: build_keyword_context_def build_product_context_def build_duplication_context_def)
  then show ?thesis using k p d prompt_heading_iff by simp
qed

text \<open>C6 at a concrete call: none of the three headings occurs in the prompt.\<close>

theorem empty_inputs_elide_sections_witness:
  "build_keyword_context (Some []) = [] \<and> build_product_context None = [] \<and>
   build_duplication_context (Some []) = [] \<and>
   \<not> str_contains (build_prompt ''ExampleBlog.com'' ''Short posts'' (Some []) None (Some []) 3) keyword_heading \<and>
   \<not> str_contains (build_prompt ''ExampleBlog.com'' ''Short posts'' (Some []) None (Some []) 3) product_heading \<and>
   \<not> str_contains (build_prompt ''ExampleBlog.com'' ''Short posts'' (Some []) None (Some []) 3) duplication_heading"
  using empty_inputs_elide_sections[of "Some []" None "Some []" "''ExampleBlog.com''" "''Short posts''" 3]
  by (simp add: keyword_heading_def product_heading_def duplication_heading_def)

subsection \<open>Capped lists in the prompt\<close>

text \<open>
  C1 as stated fails for the keyword section: with eleven keywords the section lists the first
  ten and carries no overflow note, in the section and in the whole prompt.
\<close>

theorem keyword_overflow_counterexample:
  "10 < length eleven_keywords \<and>
   build_keyword_context (Some eleven_keywords) =
     ''\<newline>\<newline>TARGET KEYWORDS TO INCORPORATE:\<newline>These keywords should be incorporated into the topic ideas for SEO. Try to build topics around these:\<newline>k1, k2, k3, k4, k5, k6, k7, k8, k9, k10\<newline>'' \<and>
   \<not> str_contains (build_keyword_context (Some eleven_keywords)) ''more...)'' \<and>
   \<not> str_contains (build_prompt ''ExampleBlog.com'' [] (Some eleven_keywords) None None 3) ''more...)''"
  by code_simp

text \<open>
  C1, amended: a keyword list longer than 10 renders as its first 10 entries joined by a comma,
  with no overflow note (the section is the one built from the first 10 alone); an
  existing-topics list longer than 50 renders as its first 50 titles, one \<open>- title\<close> line each
  in input order, followed by \<open>(and N more...)\<close> with \<open>N\<close> the number of titles beyond 50; both
  sections occur in the prompt.
\<close>

theorem capped_lists_in_prompt:
  assumes "10 < length target_keywords" and "50 < length existing_topics"
  shows "build_keyword_context (Some target_keywords) =
           ''\<newline>\<newline>TARGET KEYWORDS TO INCORPORATE:\<newline>These keywords should be incorporated into the topic ideas for SEO. Try to build topics around these:\<newline>''
           @ join '', '' (take 10 target_keywords) @ ''\<newline>''
       \<and> length (take 10 target_keywords) = 10
       \<and> build_keyword_context (Some target_keywords) = build_keyword_context (Some (take 10 target_keywords))
       \<and> build_duplication_context (Some existing_topics) =
           ''\<newline>\<newline>EXISTING BLOG POSTS TO AVOID DUPLICATING:\<newline>''
           @ join ''\<newline>'' (map (\<lambda>title. ''- '' @ title) (take 50 existing_topics))
           @ ''\<newline>(and '' @ str_nat (length existing_topics - 50) @ '' more...)''
           @ ''\<newline>\<newline>CRITICAL: Do NOT suggest topics that are too similar to these existing posts. Generate completely new angles and subjects.\<newline>''
       \<and> length (take 50 existing_topics) = 50
       \<and> str_contains (build_prompt reference_blog preferences (Some target_keywords) product_target
                          (Some existing_topics) num_topics)
            (build_keyword_context (Some target_keywords))
       \<and> str_contains (build_prompt reference_blog preferences (Some target_keywords) product_target
                          (Some existing_topics) num_topics)
            (build_duplication_context (Some existing_topics))"
proof -
  have k: "target_keywords \<noteq> []" "take 10 target_keywords \<noteq> []" using assms(1) by auto
  have t: "existing_topics \<noteq> []" using assms(2) by auto
  have n: "str_int (int (length existing_topics) - 50) = str_nat (length existing_topics - 50)"
    using assms(2) by (simp add: str_int_def nat_diff_distrib')
  have 1: "build_keyword_context (Some target_keywords) =
           ''\<newline>\<newline>TARGET KEYWORDS TO INCORPORATE:\<newline>These keywords should be incorporated into the topic ideas for SEO. Try to build topics around these:\<newline>''
           @ join '', '' (take 10 target_keywords) @ ''\<newline>''"
    using k by (simp add: build_keyword_context_def MAX_KEYWORDS_def)
  have 2: "build_keyword_context (Some target_keywords) = build_keyword_context (Some (take 10 target_keywords))"
    using k by (simp add: build_keyword_context_def MAX_KEYWORDS_def)
  have 3: "build_duplication_context (Some existing_topics) =
           ''\<newline>\<newline>EXISTING BLOG POSTS TO AVOID DUPLICATING:\<newline>''
           @ join ''\<newline>'' (map (\<lambda>title. ''- '' @ title) (take 50 existing_topics))
           @ ''\<newline>(and '' @ str_nat (length existing_topics - 50) @ '' more...)''
           @ ''\<newline>\<newline>CRITICAL: Do NOT suggest topics that are too similar to these existing posts. Generate completely new angles and subjects.\<newline>''"
    using t assms(2) n
    by (simp add: build_duplication_context_def MAX_EXISTING_TOPICS_def Let_def,
        intro arg_cong[where f="join ''\<newline>''"], simp)
  have 4: "str_contains (build_prompt reference_blog preferences (Some target_keywords) product_target
                          (Some existing_topics) num_topics)
            (build_keyword_context (Some target_keywords))"
    unfolding build_prompt_def Let_def
    using str_contains_middle[of "''\<newline>'' @
         ''Generate '' @ str_int num_topics @ '' topic ideas for the blog: '' @ reference_blog @
         ''\<newline>'' @ ''\<newline>'' @
         ''Additional preferences:\<newline>'' @
         (if preferences \<noteq> [] then preferences else ''No specific preferences'') @
         ''\<newline>''" "build_keyword_context (Some target_keywords)"]
    by simp
  have 5: "str_contains (build_prompt reference_blog preferences (Some target_keywords) product_target
                          (Some existing_topics) num_topics)
            (build_duplication_context (Some existing_topics))"
    unfolding build_prompt_def Let_def
    using str_contains_middle[of "''\<newline>'' @
         ''Generate '' @ str_int num_topics @ '' topic ideas for the blog: '' @ reference_blog @
         ''\<newline>'' @ ''\<newline>'' @
         ''Additional preferences:\<newline>'' @
         (if preferences \<noteq> [] then preferences else ''No specific preferences'') @
         ''\<newline>'' @ build_keyword_context (Some target_keywords) @
         ''\<newline>'' @ build_product_context product_target @
         ''\<newline>''" "build_duplication_context (Some existing_topics)"]
    by simp
  show ?thesis using 1 2 3 4 5 assms by simp
qed

text \<open>C1, amended, at eleven keywords and fifty-two titles.\<close>

theorem capped_lists_in_prompt_witness:
  "10 < length eleven_keywords \<and> 50 < length many_titles \<and>
   build_keyword_context (Some eleven_keywords) =
     ''\<newline>\<newline>TARGET KEYWORDS TO INCORPORATE:\<newline>These keywords should be incorporated into the topic ideas for SEO. Try to build topics around these:\<newline>k1, k2, k3, k4, k5, k6, k7, k8, k9, k10\<newline>'' \<and>
   str_contains (build_duplication_context (Some many_titles)) ''\<newline>- Old post\<newline>(and 2 more...)\<newline>'' \<and>
   str_contains (build_prompt ''ExampleBlog.com'' [] (Some eleven_keywords) None (Some many_titles) 3)
     (build_duplication_context (Some many_titles))"
proof -
  have a: "10 < length eleven_keywords" by (simp add: eleven_keywords_def)
  have b: "50 < length many_titles" by (simp add: many_titles_def)
  have c: "join '', '' (take 10 eleven_keywords) = ''k1, k2, k3, k4, k5, k6, k7, k8, k9, k10''"
    by (simp add: eleven_keywords_def)
  have d: "str_contains (build_duplication_context (Some many_titles)) ''\<newline>- Old post\<newline>(and 2 more...)\<newline>''"
    by code_simp
  note th = capped_lists_in_prompt[OF a b, of "''ExampleBlog.com''" "[]" None 3]
  from th have k: "build_keyword_context (Some eleven_keywords) =
           ''\<newline>\<newline>TARGET KEYWORDS TO INCORPORATE:\<newline>These keywords should be incorporated into the topic ideas for SEO. Try to build topics around these:\<newline>''
           @ join '', '' (take 10 eleven_keywords) @ ''\<newline>''"
    by (rule conjunct1)
  from th have p: "str_contains (build_prompt ''ExampleBlog.com'' [] (Some eleven_keywords) None (Some many_titles) 3)
     (build_duplication_context (Some many_titles))"
    by (elim conjE)
  have k': "build_keyword_context (Some eleven_keywords) =
     ''\<newline>\<newline>TARGET KEYWORDS TO INCORPORATE:\<newline>These keywords should be incorporated into the topic ideas for SEO. Try to build topics around these:\<newline>k1, k2, k3, k4, k5, k6, k7, k8, k9, k10\<newline>''"
    unfolding k c by simp
  show ?thesis using a b k' d p by (intro conjI)
qed

subsection \<open>Failure of a pipeline stage\<close>

lemma run_agent_safely_agents:
  "run_agent_safely run_sync log a p = (r, log') \<Longrightarrow> set (map fst log') = insert a (set (map fst log))"
  by (auto simp: run_agent_safely_def split: sum.splits if_splits)

lemma analyze_blog_style_agents:
  "analyze_blog_style run_sync [] ref = (sg, log1) \<Longrightarrow> set (map fst log1) = {StyleAnalyzer}"
proof -
  assume a: "analyze_blog_style run_sync [] ref = (sg, log1)"
  obtain r l where x: "run_agent_safely run_sync [] StyleAnalyzer (style_prompt ref) = (r, l)"
    by (cases "run_agent_safely run_sync [] StyleAnalyzer (style_prompt ref)") auto
  from a x have "log1 = l" by (cases r) (simp_all add: analyze_blog_style_def)
  with run_agent_safely_agents[OF x] show ?thesis by simp
qed

text \<open>
  C3 as stated fails at the first stage: when every call of the style analyzer raises, the stage
  catches the exception itself, the later three stages still run, all four fields are populated
  and the result has no error entry.
\<close>

theorem style_failure_counterexample:
  "failing_runner StyleAnalyzer ''quota exceeded'' ''ok'' 0 StyleAnalyzer (style_prompt ''ExampleBlog.com'')
     = Inl (Exception ''quota exceeded'') \<and>
   fst (create_blog_post (failing_runner StyleAnalyzer ''quota exceeded'' ''ok'')
          ''Remote Work'' ''ExampleBlog.com'' []) =
     [(''style_guide'', ''Style analysis failed: quota exceeded''), (''research'', ''ok''),
      (''draft'', ''ok''), (''final'', ''ok'')] \<and>
   map fst (snd (create_blog_post (failing_runner StyleAnalyzer ''quota exceeded'' ''ok'')
          ''Remote Work'' ''ExampleBlog.com'' [])) = [StyleAnalyzer, Researcher, Writer, Editor] \<and>
   map_of (fst (create_blog_post (failing_runner StyleAnalyzer ''quota exceeded'' ''ok'')
          ''Remote Work'' ''ExampleBlog.com'' [])) ''error'' = None"
  by code_simp

text \<open>
  C3, amended: when the research, writing or editing stage raises, no model call follows the
  failing one (the call log ends there and names no later agent), the result ends with an
  \<open>error\<close> entry holding the exception's message, and it has no field of the failing or a later
  stage. The style stage is the exception: it turns its own failure into the style guide text
  \<open>Style analysis failed: ...\<close> and the run goes on.
\<close>

theorem stage_failure_aborts:
  assumes "analyze_blog_style run_sync [] reference_blog = (style_guide, log1)"
  shows
    "(\<forall>e log2.
        run_agent_safely run_sync log1 Researcher (research_prompt topic requirements) = (Inl e, log2) \<longrightarrow>
        create_blog_post run_sync topic reference_blog requirements =
          ([(''style_guide'', style_guide), (''error'', exn_str e)], log2) \<and>
        set (map fst log2) = {StyleAnalyzer, Researcher}) \<and>
     (\<forall>research log2 e log3.
        run_agent_safely run_sync log1 Researcher (research_prompt topic requirements) = (Inr research, log2) \<longrightarrow>
        run_agent_safely run_sync log2 Writer
          (writing_prompt topic style_guide research requirements reference_blog) = (Inl e, log3) \<longrightarrow>
        create_blog_post run_sync topic reference_blog requirements =
          ([(''style_guide'', style_guide), (''research'', research), (''error'', exn_str e)], log3) \<and>
        set (map fst log3) = {StyleAnalyzer, Researcher, Writer}) \<and>
     (\<forall>research log2 draft log3 e log4.
        run_agent_safely run_sync log1 Researcher (research_prompt topic requirements) = (Inr research, log2) \<longrightarrow>
        run_agent_safely run_sync log2 Writer
          (writing_prompt topic style_guide research requirements reference_blog) = (Inr draft, log3) \<longrightarrow>
        run_agent_safely run_sync log3 Editor (editing_prompt reference_blog style_guide draft) = (Inl e, log4) \<longrightarrow>
        create_blog_post run_sync topic reference_blog requirements =
          ([(''style_guide'', style_guide), (''research'', research), (''draft'', draft),
            (''error'', exn_str e)], log4)) \<and>
     (\<forall>e. fst (run_agent_safely run_sync [] StyleAnalyzer (style_prompt reference_blog)) = Inl e \<longrightarrow>
        style_guide = ''Style analysis failed: '' @ exn_str e)"
proof -
  note s = analyze_blog_style_agents[OF assms]
  have 1: "create_blog_post run_sync topic reference_blog requirements =
          ([(''style_guide'', style_guide), (''error'', exn_str e)], log2) \<and>
        set (map fst log2) = {StyleAnalyzer, Researcher}"
    if "run_agent_safely run_sync log1 Researcher (research_prompt topic requirements) = (Inl e, log2)"
    for e log2
    using that assms s run_agent_safely_agents[OF that]
    by (auto simp: create_blog_post_def)
  have 2: "create_blog_post run_sync topic reference_blog requirements =
          ([(''style_guide'', style_guide), (''research'', research), (''error'', exn_str e)], log3) \<and>
        set (map fst log3) = {StyleAnalyzer, Researcher, Writer}"
    if a: "run_agent_safely run_sync log1 Researcher (research_prompt topic requirements) = (Inr research, log2)"
    and b: "run_agent_safely run_sync log2 Writer
          (writing_prompt topic style_guide research requirements reference_blog) = (Inl e, log3)"
    for research log2 e log3
    using a b assms s run_agent_safely_agents[OF a] run_agent_safely_agents[OF b]
    by (auto simp: create_blog_post_def)
  have 3: "create_blog_post run_sync topic reference_blog requirements =
          ([(''style_guide'', style_guide), (''research'', research), (''draft'', draft),
            (''error'', exn_str e)], log4)"
    if "run_agent_safely run_sync log1 Researcher (research_prompt topic requirements) = (Inr research, log2)"
    and "run_agent_safely run_sync log2 Writer
          (writing_prompt topic style_guide research requirements reference_blog) = (Inr draft, log3)"
    and "run_agent_safely run_sync log3 Editor (editing_prompt reference_blog style_guide draft) = (Inl e, log4)"
    for research log2 draft log3 e log4
    using that assms by (simp add: create_blog_post_def)
  have 4: "style_guide = ''Style analysis failed: '' @ exn_str e"
    if "fst (run_agent_safely run_sync [] StyleAnalyzer (style_prompt reference_blog)) = Inl e" for e
    using that assms by (auto simp: analyze_blog_style_def split: prod.splits sum.splits)
  show ?thesis using 1 2 3 4 by blast
qed

text \<open>C3, amended, at a run whose research stage raises.\<close>

theorem stage_failure_aborts_witness:
  "analyze_blog_style (failing_runner Researcher ''timeout'' ''ok'') [] ''ExampleBlog.com''
     = (''ok'', [(StyleAnalyzer, style_prompt ''ExampleBlog.com'')]) \<and>
   run_agent_safely (failing_runner Researcher ''timeout'' ''ok'')
       [(StyleAnalyzer, style_prompt ''ExampleBlog.com'')] Researcher (research_prompt ''Remote Work'' [])
     = (Inl (Exception ''timeout''),
        [(StyleAnalyzer, style_prompt ''ExampleBlog.com''), (Researcher, research_prompt ''Remote Work'' [])]) \<and>
   create_blog_post (failing_runner Researcher ''timeout'' ''ok'') ''Remote Work'' ''ExampleBlog.com'' [] =
     ([(''style_guide'', ''ok''), (''error'', ''timeout'')],
      [(StyleAnalyzer, style_prompt ''ExampleBlog.com''), (Researcher, research_prompt ''Remote Work'' [])])"
proof -
  have a: "analyze_blog_style (failing_runner Researcher ''timeout'' ''ok'') [] ''ExampleBlog.com''
     = (''ok'', [(StyleAnalyzer, style_prompt ''ExampleBlog.com'')])"
    by (simp add: analyze_blog_style_def run_agent_safely_def failing_runner_def)
  have b: "run_agent_safely (failing_runner Researcher ''timeout'' ''ok'')
       [(StyleAnalyzer, style_prompt ''ExampleBlog.com'')] Researcher (research_prompt ''Remote Work'' [])
     = (Inl (Exception ''timeout''),
        [(StyleAnalyzer, style_prompt ''ExampleBlog.com''), (Researcher, research_prompt ''Remote Work'' [])])"
    by (simp add: run_agent_safely_def failing_runner_def lower_def lower_char_def)
  from stage_failure_aborts[OF a, of "''Remote Work''" "[]", THEN conjunct1, rule_format, OF b]
  have "create_blog_post (failing_runner Researcher ''timeout'' ''ok'') ''Remote Work'' ''ExampleBlog.com'' [] =
     ([(''style_guide'', ''ok''), (''error'', ''timeout'')],
      [(StyleAnalyzer, style_prompt ''ExampleBlog.com''), (Researcher, research_prompt ''Remote Work'' [])])"
    by simp
  with a b show ?thesis by (intro conjI)
qed

subsection \<open>What is returned with an error\<close>

lemma create_blog_post_shape:
  "\<exists>sg keys. fst (create_blog_post run_sync topic reference_blog requirements) = (''style_guide'', sg) # keys
     \<and> sg = fst (analyze_blog_style run_sync [] reference_blog)
     \<and> map fst keys \<in> {[''error''], [''research'', ''error''], [''research'', ''draft'', ''error''],
                [''research'', ''draft'', ''final'']}"
proof -
  obtain sg log1 where a: "analyze_blog_style run_sync [] reference_blog = (sg, log1)"
    by (cases "analyze_blog_style run_sync [] reference_blog") auto
  obtain r1 log2 where b:
    "run_agent_safely run_sync log1 Researcher (research_prompt topic requirements) = (r1, log2)"
    by (cases "run_agent_safely run_sync log1 Researcher (research_prompt topic requirements)") auto
  show ?thesis
  proof (cases r1)
    case (Inl e)
    with a b show ?thesis by (simp add: create_blog_post_def)
  next
    case research: (Inr research)
    obtain r2 log3 where c: "run_agent_safely run_sync log2 Writer
          (writing_prompt topic sg research requirements reference_blog) = (r2, log3)"
      by (cases "run_agent_safely run_sync log2 Writer
          (writing_prompt topic sg research requirements reference_blog)") auto
    show ?thesis
    proof (cases r2)
      case (Inl e)
      with a b c research show ?thesis by (simp add: create_blog_post_def)
    next
      case draft: (Inr draft)
      obtain r3 log4 where d:
        "run_agent_safely run_sync log3 Editor (editing_prompt reference_blog sg draft) = (r3, log4)"
        by (cases "run_agent_safely run_sync log3 Editor (editing_prompt reference_blog sg draft)") auto
      show ?thesis
        using a b c d research draft by (cases r3) (simp_all add: create_blog_post_def)
    qed
  qed
qed

text \<open>
  C4 as stated fails: when the editing stage raises, the result returned still holds the style
  guide, the research and the draft next to the error message.
\<close>

theorem partial_state_counterexample:
  "fst (create_blog_post (failing_runner Editor ''timeout'' ''ok'') ''Remote Work'' ''ExampleBlog.com'' []) =
     [(''style_guide'', ''ok''), (''research'', ''ok''), (''draft'', ''ok''), (''error'', ''timeout'')]"
  by code_simp

text \<open>
  C4, amended: the partial state is returned, and only the callers hide it. The result always
  holds the style guide of the first stage. When the research, the writing or the editing stage
  raises, the result holds exactly the outputs of the stages completed before it (the style guide;
  then the research; then the draft), each with the value its stage produced, followed by the
  error message; the final field is never next to an error. Of a result with an error, the page
  of \<open>app.py\<close> shows one alert and \<open>main\<close> prints one line, both carrying the error
  message and none of the partial fields.
\<close>

theorem error_keeps_partial_state:
  assumes "analyze_blog_style run_sync [] reference_blog = (style_guide, log1)"
  shows
    "map_of (fst (create_blog_post run_sync topic reference_blog requirements)) ''style_guide''
       = Some style_guide \<and>
     (''error'' \<in> set (map fst (fst (create_blog_post run_sync topic reference_blog requirements))) \<longrightarrow>
        map fst (fst (create_blog_post run_sync topic reference_blog requirements)) \<in>
          {[''style_guide'', ''error''], [''style_guide'', ''research'', ''error''],
           [''style_guide'', ''research'', ''draft'', ''error'']} \<and>
        (\<exists>message.
           map_of (fst (create_blog_post run_sync topic reference_blog requirements)) ''error'' = Some message \<and>
           show_results (fst (create_blog_post run_sync topic reference_blog requirements)) =
             Some [Error_alert message] \<and>
           main_report (fst (create_blog_post run_sync topic reference_blog requirements)) =
             Some [Error_line message])) \<and>
     (\<forall>e log2.
        run_agent_safely run_sync log1 Researcher (research_prompt topic requirements) = (Inl e, log2) \<longrightarrow>
        fst (create_blog_post run_sync topic reference_blog requirements) =
          [(''style_guide'', style_guide), (''error'', exn_str e)] \<and>
        show_results (fst (create_blog_post run_sync topic reference_blog requirements)) =
          Some [Error_alert (exn_str e)] \<and>
        main_report (fst (create_blog_post run_sync topic reference_blog requirements)) =
          Some [Error_line (exn_str e)]) \<and>
     (\<forall>research log2 e log3.
        run_agent_safely run_sync log1 Researcher (research_prompt topic requirements) = (Inr research, log2) \<longrightarrow>
        run_agent_safely run_sync log2 Writer
          (writing_prompt topic style_guide research requirements reference_blog) = (Inl e, log3) \<longrightarrow>
        fst (create_blog_post run_sync topic reference_blog requirements) =
          [(''style_guide'', style_guide), (''research'', research), (''error'', exn_str e)] \<and>
        show_results (fst (create_blog_post run_sync topic reference_blog requirements)) =
          Some [Error_alert (exn_str e)] \<and>
        main_report (fst (create_blog_post run_sync topic reference_blog requirements)) =
          Some [Error_line (exn_str e)]) \<and>
     (\<forall>research log2 draft log3 e log4.
        run_agent_safely run_sync log1 Researcher (research_prompt topic requirements) = (Inr research, log2) \<longrightarrow>
        run_agent_safely run_sync log2 Writer
          (writing_prompt topic style_guide research requirements reference_blog) = (Inr draft, log3) \<longrightarrow>
        run_agent_safely run_sync log3 Editor (editing_prompt reference_blog style_guide draft) = (Inl e, log4) \<longrightarrow>
        fst (create_blog_post run_sync topic reference_blog requirements) =
          [(''style_guide'', style_guide), (''research'', research), (''draft'', draft),
           (''error'', exn_str e)] \<and>
        show_results (fst (create_blog_post run_sync topic reference_blog requirements)) =
          Some [Error_alert (exn_str e)] \<and>
        main_report (fst (create_blog_post run_sync topic reference_blog requirements)) =
          Some [Error_line (exn_str e)])"
proof -
  let ?res = "fst (create_blog_post run_sync topic reference_blog requirements)"
  have shape: "\<exists>sg keys. ?res = (''style_guide'', sg) # keys
     \<and> sg = fst (analyze_blog_style run_sync [] reference_blog)
     \<and> map fst keys \<in> {[''error''], [''research'', ''error''], [''research'', ''draft'', ''error''],
                [''research'', ''draft'', ''final'']}"
    by (rule create_blog_post_shape)
  have s: "show_results r = Some [Error_alert m] \<and> main_report r = Some [Error_line m]"
    if "map_of r ''error'' = Some m" for r m
    using that by (simp add: show_results_def main_report_def)
  have 0: "map_of ?res ''style_guide'' = Some style_guide \<and>
     (''error'' \<in> set (map fst ?res) \<longrightarrow> map fst ?res \<in>
        {[''style_guide'', ''error''], [''style_guide'', ''research'', ''error''],
         [''style_guide'', ''research'', ''draft'', ''error'']} \<and>
        (\<exists>message. map_of ?res ''error'' = Some message \<and>
           show_results ?res = Some [Error_alert message] \<and>
           main_report ?res = Some [Error_line message]))"
    using shape
  proof (elim exE conjE)
    fix sg keys
    assume r: "?res = (''style_guide'', sg) # keys"
      and s0: "sg = fst (analyze_blog_style run_sync [] reference_blog)"
      and k: "map fst keys \<in> {[''error''], [''research'', ''error''], [''research'', ''draft'', ''error''],
                [''research'', ''draft'', ''final'']}"
    from r s0 assms have a: "map_of ?res ''style_guide'' = Some style_guide" by simp
    from k have b: "''error'' \<in> set (map fst ?res) \<longrightarrow> map fst ?res \<in>
        {[''style_guide'', ''error''], [''style_guide'', ''research'', ''error''],
         [''style_guide'', ''research'', ''draft'', ''error'']}"
      unfolding r by auto
    have c: "\<exists>message. map_of ?res ''error'' = Some message \<and>
           show_results ?res = Some [Error_alert message] \<and>
           main_report ?res = Some [Error_line message]"
      if "''error'' \<in> set (map fst ?res)"
    proof -
      from that have "map_of ?res ''error'' \<noteq> None"
        unfolding map_of_eq_None_iff by simp
      then obtain m where m: "map_of ?res ''error'' = Some m" by (cases "map_of ?res ''error''") simp_all
      from m s[OF m] show ?thesis by (intro exI[of _ m] conjI) (rule m, simp_all)
    qed
    from a b c show ?thesis by (intro conjI impI) (assumption | rule mp[OF b])+
  qed
  have 1: "?res = [(''style_guide'', style_guide), (''error'', exn_str e)]"
    if "run_agent_safely run_sync log1 Researcher (research_prompt topic requirements) = (Inl e, log2)"
    for e log2
    using that assms by (simp add: create_blog_post_def)
  have 2: "?res = [(''style_guide'', style_guide), (''research'', research), (''error'', exn_str e)]"
    if "run_agent_safely run_sync log1 Researcher (research_prompt topic requirements) = (Inr research, log2)"
    and "run_agent_safely run_sync log2 Writer
          (writing_prompt topic style_guide research requirements reference_blog) = (Inl e, log3)"
    for research log2 e log3
    using that assms by (simp add: create_blog_post_def)
  have 3: "?res = [(''style_guide'', style_guide), (''research'', research), (''draft'', draft),
            (''error'', exn_str e)]"
    if "run_agent_safely run_sync log1 Researcher (research_prompt topic requirements) = (Inr research, log2)"
    and "run_agent_safely run_sync log2 Writer
          (writing_prompt topic style_guide research requirements reference_blog) = (Inr draft, log3)"
    and "run_agent_safely run_sync log3 Editor (editing_prompt reference_blog style_guide draft) = (Inl e, log4)"
    for research log2 draft log3 e log4
    using that assms by (simp add: create_blog_post_def)
  have e1: "?res = [(''style_guide'', style_guide), (''error'', exn_str e)] \<and>
        show_results ?res = Some [Error_alert (exn_str e)] \<and> main_report ?res = Some [Error_line (exn_str e)]"
    if "run_agent_safely run_sync log1 Researcher (research_prompt topic requirements) = (Inl e, log2)"
    for e log2
    using 1[OF that] s[of ?res "exn_str e"] by simp
  have e2: "?res = [(''style_guide'', style_guide), (''research'', research), (''error'', exn_str e)] \<and>
        show_results ?res = Some [Error_alert (exn_str e)] \<and> main_report ?res = Some [Error_line (exn_str e)]"
    if "run_agent_safely run_sync log1 Researcher (research_prompt topic requirements) = (Inr research, log2)"
    and "run_agent_safely run_sync log2 Writer
          (writing_prompt topic style_guide research requirements reference_blog) = (Inl e, log3)"
    for research log2 e log3
    using 2[OF that] s[of ?res "exn_str e"] by simp
  have e3: "?res = [(''style_guide'', style_guide), (''research'', research), (''draft'', draft),
            (''error'', exn_str e)] \<and>
        show_results ?res = Some [Error_alert (exn_str e)] \<and> main_report ?res = Some [Error_line (exn_str e)]"
    if "run_agent_safely run_sync log1 Researcher (research_prompt topic requirements) = (Inr research, log2)"
    and "run_agent_safely run_sync log2 Writer
          (writing_prompt topic style_guide research requirements reference_blog) = (Inr draft, log3)"
    and "run_agent_safely run_sync log3 Editor (editing_prompt reference_blog style_guide draft) = (Inl e, log4)"
    for research log2 draft log3 e log4
    using 3[OF that] s[of ?res "exn_str e"] by simp
  from 0 e1 e2 e3 show ?thesis by blast
qed

text \<open>C4, amended, at a run whose writing stage raises.\<close>

theorem error_keeps_partial_state_witness:
  "analyze_blog_style (failing_runner Writer ''timeout'' ''ok'') [] ''ExampleBlog.com''
     = (''ok'', [(StyleAnalyzer, style_prompt ''ExampleBlog.com'')]) \<and>
   run_agent_safely (failing_runner Writer ''timeout'' ''ok'')
       [(StyleAnalyzer, style_prompt ''ExampleBlog.com'')] Researcher (research_prompt ''Remote Work'' [])
     = (Inr ''ok'',
        [(StyleAnalyzer, style_prompt ''ExampleBlog.com''), (Researcher, research_prompt ''Remote Work'' [])]) \<and>
   run_agent_safely (failing_runner Writer ''timeout'' ''ok'')
       [(StyleAnalyzer, style_prompt ''ExampleBlog.com''), (Researcher, research_prompt ''Remote Work'' [])]
       Writer (writing_prompt ''Remote Work'' ''ok'' ''ok'' [] ''ExampleBlog.com'')
     = (Inl (Exception ''timeout''),
        [(StyleAnalyzer, style_prompt ''ExampleBlog.com''), (Researcher, research_prompt ''Remote Work'' []),
         (Writer, writing_prompt ''Remote Work'' ''ok'' ''ok'' [] ''ExampleBlog.com'')]) \<and>
   fst (create_blog_post (failing_runner Writer ''timeout'' ''ok'') ''Remote Work'' ''ExampleBlog.com'' [])
     = [(''style_guide'', ''ok''), (''research'', ''ok''), (''error'', ''timeout'')] \<and>
   show_results (fst (create_blog_post (failing_runner Writer ''timeout'' ''ok'') ''Remote Work''
                        ''ExampleBlog.com'' [])) = Some [Error_alert ''timeout''] \<and>
   main_report (fst (create_blog_post (failing_runner Writer ''timeout'' ''ok'') ''Remote Work''
                        ''ExampleBlog.com'' [])) = Some [Error_line ''timeout'']"
proof -
  let ?run = "failing_runner Writer ''timeout'' ''ok''"
  let ?l1 = "[(StyleAnalyzer, style_prompt ''ExampleBlog.com'')]"
  let ?l2 = "[(StyleAnalyzer, style_prompt ''ExampleBlog.com''), (Researcher, research_prompt ''Remote Work'' [])]"
  let ?l3 = "[(StyleAnalyzer, style_prompt ''ExampleBlog.com''), (Researcher, research_prompt ''Remote Work'' []),
         (Writer, writing_prompt ''Remote Work'' ''ok'' ''ok'' [] ''ExampleBlog.com'')]"
  have a: "analyze_blog_style ?run [] ''ExampleBlog.com'' = (''ok'', ?l1)"
    by (simp add: analyze_blog_style_def run_agent_safely_def failing_runner_def)
  have b: "run_agent_safely ?run ?l1 Researcher (research_prompt ''Remote Work'' []) = (Inr ''ok'', ?l2)"
    by (simp add: run_agent_safely_def failing_runner_def)
  have c: "run_agent_safely ?run ?l2 Writer (writing_prompt ''Remote Work'' ''ok'' ''ok'' [] ''ExampleBlog.com'')
             = (Inl (Exception ''timeout''), ?l3)"
    by (simp add: run_agent_safely_def failing_runner_def lower_def lower_char_def)
  note th = error_keeps_partial_state[OF a, of "''Remote Work''" "[]"]
  from th have "\<forall>research log2 e log3.
        run_agent_safely ?run ?l1 Researcher (research_prompt ''Remote Work'' []) = (Inr research, log2) \<longrightarrow>
        run_agent_safely ?run log2 Writer
          (writing_prompt ''Remote Work'' ''ok'' research [] ''ExampleBlog.com'') = (Inl e, log3) \<longrightarrow>
        fst (create_blog_post ?run ''Remote Work'' ''ExampleBlog.com'' []) =
          [(''style_guide'', ''ok''), (''research'', research), (''error'', exn_str e)] \<and>
        show_results (fst (create_blog_post ?run ''Remote Work'' ''ExampleBlog.com'' [])) =
          Some [Error_alert (exn_str e)] \<and>
        main_report (fst (create_blog_post ?run ''Remote Work'' ''ExampleBlog.com'' [])) =
          Some [Error_line (exn_str e)]"
    by (elim conjE)
  note d = this[rule_format, OF b c, unfolded exn_str.simps]
  note d1 = d[THEN conjunct1] and d2 = d[THEN conjunct2, THEN conjunct1]
    and d3 = d[THEN conjunct2, THEN conjunct2]
  from a b c d1 d2 d3 show ?thesis by (intro conjI)
qed

subsection \<open>Parsing the markdown export\<close>

lemma wf_topicE:
  assumes "wf_topic d"
  obtains t a ks r c where
    "map_of d ''title'' = Some (Str t)" "map_of d ''angle'' = Some (Str a)"
    "map_of d ''keywords'' = Some (StrList ks)" "map_of d ''rationale'' = Some (Str r)"
    "map_of d ''content_type'' = Some (Str c)"
    "one_line t" "strip t \<noteq> []" "one_line a" "list_all one_line ks" "one_line r" "one_line c"
proof -
  from assms have
    1: "text_field (map_of d ''title'')" and 2: "strip (title_of d) \<noteq> []" and
    3: "text_field (map_of d ''angle'')" and 4: "list_field (map_of d ''keywords'')" and
    5: "text_field (map_of d ''rationale'')" and 6: "text_field (map_of d ''content_type'')"
    by (simp_all add: wf_topic_def)
  from 1 obtain t where t: "map_of d ''title'' = Some (Str t)" "one_line t"
    by (rule text_field.elims) auto
  from 3 obtain a where a: "map_of d ''angle'' = Some (Str a)" "one_line a"
    by (rule text_field.elims) auto
  from 4 obtain ks where k: "map_of d ''keywords'' = Some (StrList ks)" "list_all one_line ks"
    by (rule list_field.elims) auto
  from 5 obtain r where r: "map_of d ''rationale'' = Some (Str r)" "one_line r"
    by (rule text_field.elims) auto
  from 6 obtain c where c: "map_of d ''content_type'' = Some (Str c)" "one_line c"
    by (rule text_field.elims) auto
  from 2 t have "strip t \<noteq> []" by (simp add: title_of_def)
  with t a k r c that show thesis by blast
qed

lemma str_int_Suc: "str_int (int i + 1) = str_nat (Suc i)"
  by (simp add: str_int_def nat_add_distrib)

lemma topic_md_wf:
  assumes "wf_topic d"
  shows "topic_md i d = Some (unlines (topic_md_lines i d))"
  using assms
  by (elim wf_topicE)
     (simp add: topic_md_def fmt_get_def topic_md_lines_def unlines_def title_of_def str_int_Suc)

lemma unlines_append: "unlines (xs @ ys) = unlines xs @ unlines ys"
  by (simp add: unlines_def)

lemma md_loop_wf:
  assumes "list_all wf_topic ds"
  shows "md_loop i md ds = Some (md @ unlines (md_lines i ds))"
  using assms
proof (induction ds arbitrary: i md)
  case Nil show ?case by (simp add: unlines_def)
next
  case (Cons d ds)
  then show ?case by (simp add: topic_md_wf unlines_append)
qed

lemma md_content_wf:
  assumes "list_all wf_topic ds"
  shows "md_content ds = Some (unlines (''# Generated Topic Ideas'' # [] # md_lines 0 ds))"
  using md_loop_wf[OF assms, of 0 "''# Generated Topic Ideas\<newline>\<newline>''"]
  by (simp add: md_content_def unlines_def)

lemma split_on_unlines:
  assumes "\<forall>l\<in>set ls. c \<notin> set l"
  shows "split_on c (concat (map (\<lambda>l. l @ [c]) ls)) = ls @ [[]]"
proof -
  have "split_acc c [] (concat (map (\<lambda>l. l @ [c]) ls)) = ls @ [[]]"
    using assms
  proof (induction ls)
    case Nil show ?case by simp
  next
    case (Cons l ls)
    then show ?case
      using split_acc_line[of c l "[]" "c # concat (map (\<lambda>l. l @ [c]) ls)"] by simp
  qed
  then show ?thesis by (simp add: split_on_def)
qed

lemma join_one_line:
  assumes "list_all one_line ks"
  shows "one_line (join '', '' ks)"
  using assms by (induction "'', ''" ks rule: join.induct) (auto simp: one_line_def)

lemma topic_md_lines_one_line:
  assumes "wf_topic d" "l \<in> set (topic_md_lines i d)"
  shows "CHR ''\<newline>'' \<notin> set l"
proof -
  have n: "CHR ''\<newline>'' \<notin> set (str_nat (Suc i))"
    using str_nat_one_line[of "Suc i"] by (simp add: one_line_def)
  from assms(1) show ?thesis
  proof (rule wf_topicE)
    fix t a ks r c
    assume "map_of d ''title'' = Some (Str t)" "map_of d ''angle'' = Some (Str a)"
      "map_of d ''keywords'' = Some (StrList ks)" "map_of d ''rationale'' = Some (Str r)"
      "map_of d ''content_type'' = Some (Str c)"
      "one_line t" "strip t \<noteq> []" "one_line a" "list_all one_line ks" "one_line r" "one_line c"
    then show ?thesis
      using assms(2) n join_one_line[of ks]
      by (auto simp: topic_md_lines_def fmt_get_def join_keywords_def title_of_def one_line_def)
  qed
qed

lemma md_lines_one_line:
  assumes "list_all wf_topic ds" "l \<in> set (md_lines i ds)"
  shows "CHR ''\<newline>'' \<notin> set l"
  using assms
  by (induction ds arbitrary: i) (auto dest: topic_md_lines_one_line)

lemma parse_line_export_label:
  assumes "lab \<in> {''Angle'', ''Keywords'', ''Rationale'', ''Content Type''}"
  shows "parse_line st (''- **'' @ lab @ '':** '' @ v) = Inr st"
proof -
  have s: "strip ((''- **'' @ lab @ '':**'') @ '' '' @ v) = (''- **'' @ lab @ '':**'') @ rstrip ('' '' @ v)"
    by (rule strip_keep) (simp_all add: is_space_def)
  have l: "\<not> has_label k (''- **'' @ lab @ '':**'' @ r)"
    if "k \<in> {''Angle'', ''Keywords'', ''Rationale'', ''Content Type''}" for k r
    using assms that by (auto simp: has_label_def)
  from s have s': "strip (''- **'' @ lab @ '':** '' @ v) = ''- **'' @ lab @ '':**'' @ rstrip ('' '' @ v)"
    by simp
  show ?thesis
    unfolding parse_line_def s' Let_def
    using l[of _ "rstrip ('' '' @ v)"]
    by (simp add: title_match_dash split: option.splits)
qed

lemma parse_line_export_title: "parse_line st ''# Generated Topic Ideas'' = Inr st"
proof -
  have s: "strip ''# Generated Topic Ideas'' = ''# Generated Topic Ideas''"
    using strip_keep[of "''# Generated Topic Ideas''" "[]"] by (simp add: is_space_def)
  have m: "title_match ''# Generated Topic Ideas'' = None"
    by (simp add: title_match_def Let_def is_space_def is_digit_def)
  have l: "\<not> has_label k ''# Generated Topic Ideas''" for k
    by (simp add: has_label_def)
  show ?thesis unfolding parse_line_def s Let_def using m l by (simp split: option.splits)
qed

lemma parse_line_export_heading:
  assumes "strip t \<noteq> []"
  shows "parse_line (ts, cur) (''## '' @ str_nat n @ ''. '' @ t) =
           Inr (close_topic ts cur, Some (new_topic (strip t)))"
  using heading_line_match[OF assms, of n]
  by (auto simp: parse_line_def Let_def)

lemma parse_lines_export_topic:
  assumes "wf_topic d"
  shows "parse_lines (ts, cur) (topic_md_lines i d @ rest) =
           parse_lines (close_topic ts cur, Some (new_topic (strip (title_of d)))) rest"
proof -
  from assms have t: "strip (title_of d) \<noteq> []"
    by (elim wf_topicE) (simp add: title_of_def)
  have a: "parse_line st (''- **Angle:** '' @ v) = Inr st" for st v
    using parse_line_export_label[of "''Angle''" st v] by simp
  have k: "parse_line st (''- **Keywords:** '' @ v) = Inr st" for st v
    using parse_line_export_label[of "''Keywords''" st v] by simp
  have r: "parse_line st (''- **Rationale:** '' @ v) = Inr st" for st v
    using parse_line_export_label[of "''Rationale''" st v] by simp
  have c: "parse_line st (''- **Content Type:** '' @ v) = Inr st" for st v
    using parse_line_export_label[of "''Content Type''" st v] by simp
  have h: "parse_line (ts, cur) (''## '' @ str_nat (Suc i) @ ''. '' @ title_of d) =
           Inr (close_topic ts cur, Some (new_topic (strip (title_of d))))"
    by (rule parse_line_export_heading[OF t])
  show ?thesis
    unfolding topic_md_lines_def
    using h a k r c by (simp add: parse_line_blank)
qed

lemma close_new_topic: "t \<noteq> [] \<Longrightarrow> close_topic ts (Some (new_topic t)) = ts @ [new_topic t]"
  by (simp add: close_topic_def new_topic_def)

lemma parse_lines_export:
  assumes "list_all wf_topic ds"
  shows "\<exists>st. parse_lines (ts, cur) (md_lines i ds @ [[]]) = Inr st \<and>
           close_topic (fst st) (snd st) =
             close_topic ts cur @ map (\<lambda>d. new_topic (strip (title_of d))) ds"
  using assms
proof (induction ds arbitrary: ts cur i)
  case Nil
  show ?case by (simp add: parse_line_blank)
next
  case (Cons d ds)
  then have w: "wf_topic d" and t: "strip (title_of d) \<noteq> []"
    by (auto elim: wf_topicE simp: title_of_def)
  from Cons obtain st where
    "parse_lines (close_topic ts cur, Some (new_topic (strip (title_of d)))) (md_lines (Suc i) ds @ [[]]) = Inr st"
    "close_topic (fst st) (snd st) =
       close_topic (close_topic ts cur) (Some (new_topic (strip (title_of d))))
         @ map (\<lambda>d. new_topic (strip (title_of d))) ds"
    by fastforce
  then show ?case
    by (simp add: parse_lines_export_topic[OF w] close_new_topic[OF t])
qed

lemma export_reparse_general:
  assumes "list_all wf_topic ds"
  shows "\<exists>md. md_content ds = Some md \<and>
           parse_topic_ideas md = Inr (map (\<lambda>d. new_topic (strip (title_of d))) ds)"
proof -
  let ?ls = "''# Generated Topic Ideas'' # [] # md_lines 0 ds"
  have md: "md_content ds = Some (unlines ?ls)" by (rule md_content_wf[OF assms])
  have "\<forall>l\<in>set ?ls. CHR ''\<newline>'' \<notin> set l"
    using md_lines_one_line[OF assms] by auto
  then have sp: "split_on CHR ''\<newline>'' (unlines ?ls) = ?ls @ [[]]"
    unfolding unlines_def using split_on_unlines[of ?ls "CHR ''\<newline>''"] by simp
  obtain st where "parse_lines ([], None) (md_lines 0 ds @ [[]]) = Inr st"
    "close_topic (fst st) (snd st) = close_topic [] None @ map (\<lambda>d. new_topic (strip (title_of d))) ds"
    using parse_lines_export[OF assms] by blast
  then have "parse_topic_ideas (unlines ?ls) = Inr (map (\<lambda>d. new_topic (strip (title_of d))) ds)"
    unfolding parse_topic_ideas_def sp
    by (simp add: parse_line_export_title parse_line_blank close_topic_def)
  with md show ?thesis by blast
qed

text \<open>
  C5 as stated fails: the export writes its labels as \<open>**Angle:**\<close>, with the colon inside the
  bold markers, while the parser looks for \<open>**Angle**:\<close>. A record the parser itself produced
  comes back from its own export with the title only.
\<close>

theorem export_reparse_counterexample:
  "parse_topic_ideas ''## 1. Remote Work Myths\<newline>- **Angle**: What the data says\<newline>- **Keywords**: remote work, productivity\<newline>- **Rationale**: Timely\<newline>- **Content Type**: Guide''
     = Inr [sample_topic] \<and>
   md_content [sample_topic] =
     Some ''# Generated Topic Ideas\<newline>\<newline>## 1. Remote Work Myths\<newline>\<newline>- **Angle:** What the data says\<newline>- **Keywords:** remote work, productivity\<newline>- **Rationale:** Timely\<newline>- **Content Type:** Guide\<newline>\<newline>'' \<and>
   parse_topic_ideas ''# Generated Topic Ideas\<newline>\<newline>## 1. Remote Work Myths\<newline>\<newline>- **Angle:** What the data says\<newline>- **Keywords:** remote work, productivity\<newline>- **Rationale:** Timely\<newline>- **Content Type:** Guide\<newline>\<newline>''
     = Inr [[(''title'', Str ''Remote Work Myths''), (''angle'', Str []), (''keywords'', StrList []),
             (''rationale'', Str []), (''content_type'', Str [])]] \<and>
   [[(''title'', Str ''Remote Work Myths''), (''angle'', Str []), (''keywords'', StrList []),
     (''rationale'', Str []), (''content_type'', Str [])]] \<noteq> [sample_topic]"
  by code_simp

text \<open>
  C5, amended: parsing the markdown export of N well-formed topic records yields N records in the
  same order, each with the (stripped) title of its input record and the empty defaults for
  angle, keywords, rationale and content type; so records that hold nothing but a stripped title
  come back unchanged.
\<close>

theorem export_reparse_titles:
  "(list_all wf_topic topics \<longrightarrow>
      (\<exists>md. md_content topics = Some md \<and>
            parse_topic_ideas md = Inr (map (\<lambda>d. new_topic (strip (title_of d))) topics))) \<and>
   (list_all (\<lambda>t. one_line t \<and> t \<noteq> [] \<and> strip t = t) titles \<longrightarrow>
      (\<exists>md. md_content (map new_topic titles) = Some md \<and>
            parse_topic_ideas md = Inr (map new_topic titles)))"
proof -
  have w: "wf_topic (new_topic t)" if "one_line t" "t \<noteq> []" "strip t = t" for t
    using that by (simp add: wf_topic_def new_topic_def title_of_def one_line_def)
  have t: "strip (title_of (new_topic t)) = t" if "strip t = t" for t
    using that by (simp add: title_of_def new_topic_def)
  have "\<exists>md. md_content (map new_topic titles) = Some md \<and>
            parse_topic_ideas md = Inr (map new_topic titles)"
    if a: "list_all (\<lambda>t. one_line t \<and> t \<noteq> [] \<and> strip t = t) titles"
  proof -
    from a have "list_all wf_topic (map new_topic titles)"
      by (simp add: list_all_iff w)
    then obtain md where m: "md_content (map new_topic titles) = Some md"
        "parse_topic_ideas md = Inr (map (\<lambda>d. new_topic (strip (title_of d))) (map new_topic titles))"
      using export_reparse_general[of "map new_topic titles"] by blast
    from a have "map (\<lambda>d. new_topic (strip (title_of d))) (map new_topic titles) = map new_topic titles"
      by (simp add: list_all_iff t)
    with m show ?thesis by simp
  qed
  then show ?thesis using export_reparse_general by blast
qed

text \<open>C5, amended, at one full record and at one record that holds only a title.\<close>

theorem export_reparse_titles_witness:
  "list_all wf_topic [sample_topic] \<and>
   list_all (\<lambda>t. one_line t \<and> t \<noteq> [] \<and> strip t = t) [''Async by Default''] \<and>
   (\<exists>md. md_content [sample_topic] = Some md \<and>
         parse_topic_ideas md = Inr [new_topic ''Remote Work Myths'']) \<and>
   (\<exists>md. md_content [new_topic ''Async by Default''] = Some md \<and>
         parse_topic_ideas md = Inr [new_topic ''Async by Default''])"
proof -
  have a: "list_all wf_topic [sample_topic]" by code_simp
  have b: "list_all (\<lambda>t. one_line t \<and> t \<noteq> [] \<and> strip t = t) [''Async by Default'']" by code_simp
  have c: "map (\<lambda>d. new_topic (strip (title_of d))) [sample_topic] = [new_topic ''Remote Work Myths'']"
    by code_simp
  from export_reparse_titles[of "[sample_topic]" "[''Async by Default'']"] a b
  show ?thesis unfolding c[symmetric] by simp
qed

subsection \<open>State accesses of the workflow\<close>

lemma store_all_accesses:
  "store_all ag out writes r = Inr r' \<Longrightarrow>
     accesses r' = accesses r @ map (\<lambda>(p, k). Write ag p) writes"
  by (induction writes arbitrary: r) (auto split: option.splits)

lemma run_stage_accesses:
  assumes "run_stage runner ag extra reads writes r = Inr (r', out)"
  shows "accesses r' = accesses r @ map (\<lambda>(attr, p). Read ag p) reads @ map (\<lambda>(p, k). Write ag p) writes"
  using assms
  by (auto simp: run_stage_def Let_def split: sum.splits dest!: store_all_accesses)

lemma run_workflow_accesses:
  assumes "run_workflow runner input_as_text = Inr r"
  shows "accesses r = workflow_accesses"
  using assms unfolding run_workflow_def
  by (auto split: sum.splits prod.splits option.splits dest!: run_stage_accesses
        simp: workflow_accesses_def)

text \<open>
  C7 at a concrete run: every state field is written once, but the internal-links stage builds
  its context from \<open>state["response_schema"]["root_blog_url"]\<close> and
  \<open>state["response_schema"]["topic"]\<close>, which no stage and no input ever populates. It is
  handed the empty placeholders, while the editor after it reads the populated
  \<open>state["root_blog_url"]\<close>.
\<close>

theorem internal_links_reads_unpopulated:
  "accesses sample_run = workflow_accesses \<and>
   distinct (written (accesses sample_run)) \<and>
   unpopulated_reads [] (accesses sample_run) =
     [Read W_internal_links [''response_schema'', ''root_blog_url''],
      Read W_internal_links [''response_schema'', ''topic'']] \<and>
   map_of (wf_state sample_run) [''root_blog_url''] = Some (JStr ''ExampleBlog.com'') \<and>
   map_of (calls sample_run) W_internal_links =
     Some [(''state_writer_draft'', JStr ''draft''),
           (''state_response_schema_root_blog_url'', JStr []),
           (''state_seo_analyze_first_pass'', JStr ''seo''),
           (''state_response_schema_topic'', JStr [])] \<and>
   map_of (calls sample_run) W_editor =
     Some [(''input_output_parsed_internal_links_output'', JStr ''linked''),
           (''state_root_blog_url'', JStr ''ExampleBlog.com''),
           (''state_writing_style'', JStr ''style''),
           (''state_seo_analyze_first_pass'', JStr ''seo'')]"
  by code_simp

text \<open>The same holds of the accesses of every run that completes, whatever the agents return.\<close>

lemma run_workflow_unpopulated:
  assumes "run_workflow runner input_as_text = Inr r"
  shows "distinct (written (accesses r)) \<and>
         unpopulated_reads [] (accesses r) =
           [Read W_internal_links [''response_schema'', ''root_blog_url''],
            Read W_internal_links [''response_schema'', ''topic'']]"
  unfolding run_workflow_accesses[OF assms] by code_simp

subsection \<open>Parallel research in any order of completion\<close>

lemma set_update_subset: "set (AList.update k v al) \<subseteq> insert (k, v) (set al)"
  by (induction al) auto

lemma update_key_set: "set (map fst (AList.update k v al)) = insert k (set (map fst al))"
  by (auto simp: update_keys)

lemma submit_all_keys:
  "set (map fst (submit_all i areas fs)) = set (map fst fs) \<union> set areas"
proof (induction areas arbitrary: i fs)
  case Nil
  show ?case by simp
next
  case (Cons a areas)
  have "set (map fst (submit_all i (a # areas) fs))
          = set (map fst (AList.update a i fs)) \<union> set areas"
    using Cons.IH[of "Suc i" "AList.update a i fs"] by simp
  also have "\<dots> = set (map fst fs) \<union> set (a # areas)"
    unfolding update_key_set by auto
  finally show ?case .
qed

lemma submit_all_distinct:
  "distinct (map fst fs) \<Longrightarrow> distinct (map fst (submit_all i areas fs))"
  by (induction areas arbitrary: i fs) (simp_all add: distinct_update)

lemma submit_all_entries:
  assumes "(a, j) \<in> set (submit_all i areas fs)"
  shows "(a, j) \<in> set fs \<or> (i \<le> j \<and> j < i + length areas \<and> areas ! (j - i) = a)"
  using assms
proof (induction areas arbitrary: i fs)
  case Nil
  then show ?case by simp
next
  case (Cons x xs)
  from Cons.prems have "(a, j) \<in> set (submit_all (Suc i) xs (AList.update x i fs))" by simp
  from Cons.IH[OF this]
  consider "(a, j) \<in> set (AList.update x i fs)"
    | "Suc i \<le> j" "j < Suc i + length xs" "xs ! (j - Suc i) = a"
    by blast
  then show ?case
  proof cases
    case 1
    with set_update_subset[of x i fs] have "(a, j) = (x, i) \<or> (a, j) \<in> set fs" by blast
    then show ?thesis by auto
  next
    case 2
    then have "(x # xs) ! (j - i) = a" by (simp add: Suc_diff_le nth_Cons')
    with 2 show ?thesis by auto
  qed
qed

lemma run_workers_answered:
  assumes "answered run_sync topic areas finished"
  shows "answered run_sync topic areas (run_workers run_sync topic areas finished schedule)"
  using assms
proof (induction schedule arbitrary: finished)
  case Nil
  then show ?case by simp
next
  case (Cons i rest)
  show ?case
  proof (cases "i < length areas \<and> map_of finished i = None")
    case True
    have "answered run_sync topic areas
            (finished @ [(i, run_sync (length finished) Researcher (area_prompt topic (areas ! i)))])"
      using Cons.prems True unfolding answered_def
      by (auto simp: map_add_def split: option.splits)
    from Cons.IH[OF this] True show ?thesis by simp
  next
    case False
    with Cons show ?thesis by auto
  qed
qed

lemma run_workers_keys:
  "fst ` set (run_workers run_sync topic areas finished schedule)
     = fst ` set finished \<union> {i \<in> set schedule. i < length areas}"
proof (induction schedule arbitrary: finished)
  case Nil
  show ?case by simp
next
  case (Cons j rest)
  show ?case
  proof (cases "j < length areas \<and> map_of finished j = None")
    case True
    let ?next = "finished @ [(j, run_sync (length finished) Researcher (area_prompt topic (areas ! j)))]"
    from True have r: "run_workers run_sync topic areas finished (j # rest)
        = run_workers run_sync topic areas ?next rest"
      by simp
    have "fst ` set (run_workers run_sync topic areas ?next rest)
        = fst ` set ?next \<union> {i \<in> set rest. i < length areas}"
      by (rule Cons.IH)
    also have "\<dots> = fst ` set finished \<union> {i \<in> set (j # rest). i < length areas}"
      using True by auto
    finally show ?thesis unfolding r .
  next
    case False
    then have r: "run_workers run_sync topic areas finished (j # rest)
        = run_workers run_sync topic areas finished rest"
      by (simp only: run_workers.simps if_False)
    from False have "j < length areas \<longrightarrow> j \<in> fst ` set finished"
      by (simp add: map_of_eq_None_iff)
    have "fst ` set (run_workers run_sync topic areas finished rest)
        = fst ` set finished \<union> {i \<in> set rest. i < length areas}"
      by (rule Cons.IH)
    also have "\<dots> = fst ` set finished \<union> {i \<in> set (j # rest). i < length areas}"
      using \<open>j < length areas \<longrightarrow> j \<in> fst ` set finished\<close> by auto
    finally show ?thesis unfolding r .
  qed
qed

lemma run_workers_complete:
  "map_of (run_workers run_sync topic areas finished schedule) i \<noteq> None \<longleftrightarrow>
     map_of finished i \<noteq> None \<or> (i \<in> set schedule \<and> i < length areas)"
  unfolding map_of_eq_None_iff run_workers_keys by blast

lemma run_workers_done:
  assumes "i \<in> set schedule" "i < length areas"
  shows "map_of (run_workers run_sync topic areas finished schedule) i \<noteq> None"
  using run_workers_complete[of run_sync topic areas finished schedule i] assms by blast

lemma collect_cong:
  assumes "\<forall>(a, i)\<in>set fs. map_of d1 i = map_of d2 i"
  shows "collect fs d1 acc = collect fs d2 acc"
  using assms
  by (induction fs d1 acc rule: collect.induct) (auto split: option.splits sum.splits)

lemma collect_all:
  assumes "\<forall>(a, i)\<in>set fs. \<exists>v. map_of finished i = Some (Inr v)"
  shows "\<exists>res. collect fs finished acc = Some (Inr res) \<and>
           set (map fst res) = set (map fst acc) \<union> set (map fst fs) \<and>
           (distinct (map fst acc) \<longrightarrow> distinct (map fst res)) \<and>
           (\<forall>(a, v)\<in>set res. (a, v) \<in> set acc \<or> (\<exists>i. (a, i) \<in> set fs \<and> map_of finished i = Some (Inr v)))"
  using assms
proof (induction fs arbitrary: acc)
  case Nil
  show ?case by simp
next
  case (Cons f fs)
  obtain a i where f: "f = (a, i)" by (cases f)
  from Cons.prems f obtain v where v: "map_of finished i = Some (Inr v)" by auto
  from Cons.prems have "\<forall>(a, i)\<in>set fs. \<exists>v. map_of finished i = Some (Inr v)" by simp
  from Cons.IH[OF this, of "AList.update a v acc"] obtain res where
    r: "collect fs finished (AList.update a v acc) = Some (Inr res)"
    and k: "set (map fst res) = set (map fst (AList.update a v acc)) \<union> set (map fst fs)"
    and d: "distinct (map fst (AList.update a v acc)) \<longrightarrow> distinct (map fst res)"
    and e: "\<forall>(b, w)\<in>set res. (b, w) \<in> set (AList.update a v acc) \<or>
              (\<exists>i. (b, i) \<in> set fs \<and> map_of finished i = Some (Inr w))"
    by blast
  have 1: "collect (f # fs) finished acc = Some (Inr res)" using f v r by simp
  have 2: "set (map fst res) = set (map fst acc) \<union> set (map fst (f # fs))"
    using k f unfolding update_key_set by auto
  have 3: "distinct (map fst acc) \<longrightarrow> distinct (map fst res)"
    using d by (simp add: distinct_update)
  have 4: "\<forall>(b, w)\<in>set res. (b, w) \<in> set acc \<or>
             (\<exists>i. (b, i) \<in> set (f # fs) \<and> map_of finished i = Some (Inr w))"
  proof (clarify)
    fix b w assume bw: "(b, w) \<in> set res"
      and n: "\<not> (\<exists>i. (b, i) \<in> set (f # fs) \<and> map_of finished i = Some (Inr w))"
    from e bw consider "(b, w) \<in> set (AList.update a v acc)"
      | "\<exists>i. (b, i) \<in> set fs \<and> map_of finished i = Some (Inr w)" by blast
    then show "(b, w) \<in> set acc"
    proof cases
      case 1
      with set_update_subset[of a v acc] have "(b, w) = (a, v) \<or> (b, w) \<in> set acc" by blast
      with n f v show ?thesis by auto
    next
      case 2
      with n show ?thesis by auto
    qed
  qed
  from 1 2 3 4 show ?case by blast
qed

lemma answered_empty: "answered run_sync topic areas []"
  by (simp add: answered_def)

lemma parallel_research_returns:
  assumes cover: "\<forall>i<length areas. i \<in> set schedule"
    and ok: "\<forall>k. \<forall>a\<in>set areas. \<exists>out. run_sync k Researcher (area_prompt topic a) = Inr out"
  shows "\<exists>results. parallel_research run_sync topic areas schedule = Some (Inr results) \<and>
           set (map fst results) = set areas \<and> distinct (map fst results) \<and>
           (\<forall>(a, v)\<in>set results. \<exists>i<length areas. areas ! i = a \<and>
              map_of (run_workers run_sync topic areas [] schedule) i = Some (Inr v)) \<and>
           (\<forall>(a, v)\<in>set results. \<exists>k. run_sync k Researcher (area_prompt topic a) = Inr v)"
proof -
  let ?fin = "run_workers run_sync topic areas [] schedule"
  let ?fs = "submit_all 0 areas []"
  have ans: "answered run_sync topic areas ?fin"
    by (rule run_workers_answered[OF answered_empty])
  have all: "map_of ?fin i \<noteq> None" if "i < length areas" for i
    using that cover by (intro run_workers_done) auto
  then have chk: "list_all (\<lambda>i. map_of ?fin i \<noteq> None) [0..<length areas]"
    by (simp add: list_all_iff)
  have val: "\<exists>v. map_of ?fin i = Some (Inr v)" if "i < length areas" for i
  proof -
    from all[OF that] obtain r where r: "map_of ?fin i = Some r" by auto
    with ans obtain k where "r = run_sync k Researcher (area_prompt topic (areas ! i))"
      unfolding answered_def by blast
    moreover from ok that obtain out where
      "run_sync k Researcher (area_prompt topic (areas ! i)) = Inr out" by (meson nth_mem)
    ultimately show ?thesis using r by simp
  qed
  have rng: "j < length areas \<and> areas ! j = a" if "(a, j) \<in> set ?fs" for a j
    using submit_all_entries[OF that] by simp
  have "\<forall>(a, i)\<in>set ?fs. \<exists>v. map_of ?fin i = Some (Inr v)"
    using rng val by blast
  from collect_all[OF this, of "[]"] obtain res where
    c: "collect ?fs ?fin [] = Some (Inr res)"
    and k: "set (map fst res) = set (map fst ?fs)"
    and d: "distinct (map fst res)"
    and e: "\<forall>(a, v)\<in>set res. \<exists>i. (a, i) \<in> set ?fs \<and> map_of ?fin i = Some (Inr v)"
    by auto
  have 1: "parallel_research run_sync topic areas schedule = Some (Inr res)"
    using chk c by (simp add: parallel_research_def)
  have 2: "set (map fst res) = set areas"
    using k submit_all_keys[of 0 areas "[]"] by simp
  have 3: "\<exists>k. run_sync k Researcher (area_prompt topic a) = Inr v" if "(a, v) \<in> set res" for a v
  proof -
    from e that obtain i where i: "(a, i) \<in> set ?fs" "map_of ?fin i = Some (Inr v)" by blast
    from rng[OF i(1)] have "areas ! i = a" by simp
    moreover from ans i(2) obtain k where
      "Inr v = run_sync k Researcher (area_prompt topic (areas ! i))"
      unfolding answered_def by blast
    ultimately show ?thesis by metis
  qed
  have 4: "\<exists>i<length areas. areas ! i = a \<and> map_of ?fin i = Some (Inr v)"
    if "(a, v) \<in> set res" for a v
  proof -
    from e that obtain i where i: "(a, i) \<in> set ?fs" "map_of ?fin i = Some (Inr v)" by blast
    with rng[OF i(1)] show ?thesis by blast
  qed
  from 1 2 d 3 4 show ?thesis by blast
qed

lemma parallel_research_waits:
  assumes "i < length areas" "i \<notin> set schedule"
  shows "parallel_research run_sync topic areas schedule = None"
proof -
  have "map_of (run_workers run_sync topic areas [] schedule) i = None"
    using run_workers_complete[of run_sync topic areas "[]" schedule i] assms(2) by simp
  with assms(1) have "\<not> list_all (\<lambda>i. map_of (run_workers run_sync topic areas [] schedule) i \<noteq> None)
                        [0..<length areas]"
    by (auto simp: list_all_iff)
  then show ?thesis by (simp add: parallel_research_def)
qed

lemma parallel_research_same:
  assumes c1: "\<forall>i<length areas. i \<in> set s1" and c2: "\<forall>i<length areas. i \<in> set s2"
    and ind: "\<forall>k k' p. run_sync k Researcher p = run_sync k' Researcher p"
  shows "parallel_research run_sync topic areas s1 = parallel_research run_sync topic areas s2"
proof -
  let ?f1 = "run_workers run_sync topic areas [] s1"
  let ?f2 = "run_workers run_sync topic areas [] s2"
  let ?fs = "submit_all 0 areas []"
  have val: "map_of (run_workers run_sync topic areas [] s) i
               = Some (run_sync 0 Researcher (area_prompt topic (areas ! i)))"
    if "i < length areas" "\<forall>i<length areas. i \<in> set s" for i s
  proof -
    from that have "map_of (run_workers run_sync topic areas [] s) i \<noteq> None"
      by (intro run_workers_done) auto
    then obtain r where r: "map_of (run_workers run_sync topic areas [] s) i = Some r" by auto
    with run_workers_answered[OF answered_empty, of run_sync topic areas s]
    obtain k where "r = run_sync k Researcher (area_prompt topic (areas ! i))"
      unfolding answered_def by blast
    with ind have "r = run_sync 0 Researcher (area_prompt topic (areas ! i))" by metis
    with r show ?thesis by simp
  qed
  have eq: "map_of ?f1 i = map_of ?f2 i" if "i < length areas" for i
    using val[OF that c1] val[OF that c2] by simp
  have chk: "list_all (\<lambda>i. map_of ?f1 i \<noteq> None) [0..<length areas]
             = list_all (\<lambda>i. map_of ?f2 i \<noteq> None) [0..<length areas]"
    using eq by (simp add: list_all_iff)
  have "\<forall>(a, i)\<in>set ?fs. map_of ?f1 i = map_of ?f2 i"
    using submit_all_entries[of _ _ 0 areas "[]"] eq by auto
  then have "collect ?fs ?f1 [] = collect ?fs ?f2 []" by (rule collect_cong)
  with chk show ?thesis by (simp add: parallel_research_def)
qed

text \<open>
  C9: for every list of research areas and every order in which the worker calls complete,
  \<open>parallel_research\<close> returns (when every call returns an output) a mapping whose keys are
  exactly the input subtopics, each mapped to an output the model produced for that subtopic's
  prompt, namely the one returned by a worker call of this run for that subtopic; it does not
  return while a worker call is outstanding; and when the model's answers do not depend on the
  order, neither does the mapping.
\<close>

theorem parallel_research_any_order:
  "((\<forall>i<length research_areas. i \<in> set schedule) \<and>
    (\<forall>k. \<forall>a\<in>set research_areas. \<exists>out. run_sync k Researcher (area_prompt topic a) = Inr out) \<longrightarrow>
      (\<exists>results. parallel_research run_sync topic research_areas schedule = Some (Inr results) \<and>
         set (map fst results) = set research_areas \<and> distinct (map fst results) \<and>
         (\<forall>(a, v)\<in>set results. \<exists>i<length research_areas. research_areas ! i = a \<and>
            map_of (run_workers run_sync topic research_areas [] schedule) i = Some (Inr v)) \<and>
         (\<forall>(a, v)\<in>set results. \<exists>k. run_sync k Researcher (area_prompt topic a) = Inr v))) \<and>
   ((\<exists>i<length research_areas. i \<notin> set schedule) \<longrightarrow>
      parallel_research run_sync topic research_areas schedule = None) \<and>
   ((\<forall>i<length research_areas. i \<in> set schedule) \<and>
    (\<forall>i<length research_areas. i \<in> set schedule') \<and>
    (\<forall>k k' p. run_sync k Researcher p = run_sync k' Researcher p) \<longrightarrow>
      parallel_research run_sync topic research_areas schedule =
      parallel_research run_sync topic research_areas schedule')"
  using parallel_research_returns[of research_areas schedule run_sync topic]
    parallel_research_waits[of _ research_areas schedule run_sync topic]
    parallel_research_same[of research_areas schedule schedule' run_sync topic]
  by blast

text \<open>C9 at three tasks completing in the order 2, 0, 1, and at a model that ignores the order.\<close>

theorem parallel_research_any_order_witness:
  "list_all (\<lambda>i. i \<in> set [2, 0, 1]) [0..<length sample_areas] \<and>
   list_all (\<lambda>i. i \<in> set [0, 1, 2]) [0..<length sample_areas] \<and>
   parallel_research counting_runner ''Remote Work'' sample_areas [2, 0, 1] =
     Some (Inr [(''tools'', ''Research specifically about tools in relation to Remote Work (call 0)''),
                (''culture'', ''Research specifically about culture in relation to Remote Work (call 2)'')]) \<and>
   (\<exists>results. parallel_research counting_runner ''Remote Work'' sample_areas [2, 0, 1] = Some (Inr results) \<and>
      set (map fst results) = set sample_areas \<and> distinct (map fst results)) \<and>
   parallel_research counting_runner ''Remote Work'' sample_areas [0, 1] = None \<and>
   parallel_research (mock_runner ''notes'') ''Remote Work'' sample_areas [2, 0, 1] =
     parallel_research (mock_runner ''notes'') ''Remote Work'' sample_areas [0, 1, 2]"
proof -
  have c1: "\<forall>i<length sample_areas. i \<in> set [2, 0, 1]"
    by (auto simp: sample_areas_def less_Suc_eq)
  have c2: "\<forall>i<length sample_areas. i \<in> set [0, 1, 2]"
    by (auto simp: sample_areas_def less_Suc_eq)
  have c3: "\<exists>i<length sample_areas. i \<notin> set [0, 1]"
    by (rule exI[of _ 2]) (simp add: sample_areas_def)
  have ok: "\<forall>k. \<forall>a\<in>set sample_areas. \<exists>out. counting_runner k Researcher (area_prompt ''Remote Work'' a) = Inr out"
    by (simp add: counting_runner_def)
  have ind: "\<forall>k k' p. mock_runner ''notes'' k Researcher p = mock_runner ''notes'' k' Researcher p"
    by (simp add: mock_runner_def)
  have l1: "list_all (\<lambda>i. i \<in> set [2, 0, 1]) [0..<length sample_areas]"
    using c1 by (simp add: list_all_iff)
  have l2: "list_all (\<lambda>i. i \<in> set [0, 1, 2]) [0..<length sample_areas]"
    using c2 by (simp add: list_all_iff)
  have e: "parallel_research counting_runner ''Remote Work'' sample_areas [2, 0, 1] =
     Some (Inr [(''tools'', ''Research specifically about tools in relation to Remote Work (call 0)''),
                (''culture'', ''Research specifically about culture in relation to Remote Work (call 2)'')])"
    by code_simp
  note t1 = parallel_research_any_order[of sample_areas "[2, 0, 1]" counting_runner "''Remote Work''" "[]",
      THEN conjunct1, rule_format, OF conjI[OF c1 ok]]
  note t2 = parallel_research_any_order[of sample_areas "[0, 1]" counting_runner "''Remote Work''" "[]",
      THEN conjunct2, THEN conjunct1, rule_format, OF c3]
  note t3 = parallel_research_any_order[of sample_areas "[2, 0, 1]" "mock_runner ''notes''" "''Remote Work''"
      "[0, 1, 2]", THEN conjunct2, THEN conjunct2, rule_format, OF conjI[OF c1 conjI[OF c2 ind]]]
  from t1 have t1': "\<exists>results. parallel_research counting_runner ''Remote Work'' sample_areas [2, 0, 1]
        = Some (Inr results) \<and> set (map fst results) = set sample_areas \<and> distinct (map fst results)"
    by blast
  from l1 l2 e t1' t2 t3 show ?thesis by (intro conjI)
qed

end
